theory Spec2Isabelle
  imports Main
begin

section \<open>Data model of jargs.hpp\<close>

text \<open>
  The process as the parser sees it: the two output streams and the state that the
  callbacks of the calling program capture by reference.
\<close>

record 'u world =
  cout :: string
  cerr :: string
  user :: 'u

text \<open>
  A call either returns to its caller or ends the process through \<^verbatim>\<open>std::exit\<close>
  with a status. Both carry the state reached.
\<close>

datatype ('a, 's) outcome = Return 'a 's | Exit int 's

text \<open>
  \<^verbatim>\<open>std::function<void()>\<close>: a closure of the calling program, or the closure
  that \<^verbatim>\<open>Parser::add_help\<close> builds. The latter captures \<^verbatim>\<open>this\<close>, so it is kept
  as data and run against the registry at the time of the call.
\<close>

datatype 'u func0 =
  Fn0 "'u world \<Rightarrow> (unit, 'u world) outcome"
| HelpFn string

text \<open>
  \<^verbatim>\<open>std::function<void(std::string_view optarg)>\<close>: a closure of the calling
  program, or the wrapper \<^verbatim>\<open>[f](std::string_view optarg){ (void)optarg; f(); }\<close>
  of the constructors without argument.
\<close>

datatype 'u func1 =
  Fn1 "string \<Rightarrow> 'u world \<Rightarrow> (unit, 'u world) outcome"
| Discard "'u func0"

record 'u Flag =
  short_name :: char
  long_name :: string
  description :: string
  expects_value :: bool
  action :: "'u func1"

definition NUL :: char where
  "NUL = CHR 0x00"

definition newline :: char where
  "newline = CHR 0x0A"

subsection \<open>The six constructors of Flag\<close>

definition Flag_short_long_arg :: "char \<Rightarrow> string \<Rightarrow> string \<Rightarrow> 'u func1 \<Rightarrow> 'u Flag" where
  "Flag_short_long_arg c s desc f =
     \<lparr>short_name = c, long_name = s, description = desc, expects_value = True, action = f\<rparr>"

definition Flag_long_arg :: "string \<Rightarrow> string \<Rightarrow> 'u func1 \<Rightarrow> 'u Flag" where
  "Flag_long_arg s desc f = Flag_short_long_arg NUL s desc f"

definition Flag_short_arg :: "char \<Rightarrow> string \<Rightarrow> 'u func1 \<Rightarrow> 'u Flag" where
  "Flag_short_arg c desc f = Flag_short_long_arg c [] desc f"

definition Flag_short_long :: "char \<Rightarrow> string \<Rightarrow> string \<Rightarrow> 'u func0 \<Rightarrow> 'u Flag" where
  "Flag_short_long c s desc f =
     \<lparr>short_name = c, long_name = s, description = desc, expects_value = False,
      action = Discard f\<rparr>"

definition Flag_long :: "string \<Rightarrow> string \<Rightarrow> 'u func0 \<Rightarrow> 'u Flag" where
  "Flag_long s desc f = Flag_short_long NUL s desc f"

definition Flag_short :: "char \<Rightarrow> string \<Rightarrow> 'u func0 \<Rightarrow> 'u Flag" where
  "Flag_short c desc f = Flag_short_long c [] desc f"

section \<open>The help page\<close>

definition lhs_max :: nat where
  "lhs_max = 32"

definition help_lhs :: "'u Flag \<Rightarrow> string" where
  "help_lhs f =
     ''  ''
     @ (if short_name f \<noteq> NUL then ''-'' @ [short_name f] else [])
     @ (if short_name f \<noteq> NUL \<and> long_name f \<noteq> [] then '', '' else [])
     @ (if length (long_name f) \<noteq> 0 then ''--'' @ long_name f else [])
     @ (if expects_value f then '' ARG'' else [])"

definition help_entry :: "'u Flag \<Rightarrow> string" where
  "help_entry f =
     (let lhs = help_lhs f in
      if length lhs \<le> lhs_max
      then lhs @ replicate (lhs_max - length lhs) CHR '' '' @ '' '' @ description f @ [newline]
      else lhs @ [newline] @ replicate lhs_max CHR '' '' @ '' '' @ description f @ [newline])"

definition print_help_page :: "'u Flag list \<Rightarrow> string \<Rightarrow> 'u world \<Rightarrow> 'u world" where
  "print_help_page flags usage w =
     foldl (\<lambda>w' f. w'\<lparr>cout := cout w' @ help_entry f\<rparr>)
       (w\<lparr>cout := cout w @ ''Usage: '' @ usage @ [newline]\<rparr>) flags"

section \<open>The registry\<close>

definition add :: "'u Flag list \<Rightarrow> 'u Flag \<Rightarrow> 'u Flag list" where
  "add flags f = flags @ [f]"

definition add_help :: "'u Flag list \<Rightarrow> string \<Rightarrow> 'u Flag list" where
  "add_help flags usage = add flags (Flag_short_long CHR ''h'' ''help'' ''Print help'' (HelpFn usage))"

section \<open>Running a callback\<close>

fun call0 :: "'u Flag list \<Rightarrow> 'u func0 \<Rightarrow> 'u world \<Rightarrow> (unit, 'u world) outcome" where
  "call0 flags (Fn0 g) w = g w"
| "call0 flags (HelpFn usage) w = Exit 1 (print_help_page flags usage w)"

fun call1 :: "'u Flag list \<Rightarrow> 'u func1 \<Rightarrow> string \<Rightarrow> 'u world \<Rightarrow> (unit, 'u world) outcome" where
  "call1 flags (Fn1 g) optarg w = g optarg w"
| "call1 flags (Discard f) optarg w = call0 flags f w"

text \<open>
  The state of a parse: the world, and a log of the calls \<^verbatim>\<open>spec->action(...)\<close> made
  so far, each as the position of the flag in the registry and the argument passed.
  The log is an observation only: no callback reads or writes it.
\<close>

type_synonym 'u pstate = "(nat \<times> string) list \<times> 'u world"

fun invoke :: "'u Flag list \<Rightarrow> nat \<Rightarrow> string \<Rightarrow> 'u pstate \<Rightarrow> (unit, 'u pstate) outcome" where
  "invoke flags k optarg (tr, w) =
     (case call1 flags (action (flags ! k)) optarg w of
        Return _ w' \<Rightarrow> Return () (tr @ [(k, optarg)], w')
      | Exit n w' \<Rightarrow> Exit n (tr @ [(k, optarg)], w'))"

fun error_exit :: "string \<Rightarrow> 'u pstate \<Rightarrow> ('a, 'u pstate) outcome" where
  "error_exit msg (tr, w) = Exit 1 (tr, w\<lparr>cerr := cerr w @ msg\<rparr>)"

section \<open>String helpers of the standard library\<close>

text \<open>\<^verbatim>\<open>std::find_if\<close>: the position of the first element that satisfies the predicate;
  \<open>None\<close> is the end iterator.\<close>

fun find_if :: "('a \<Rightarrow> bool) \<Rightarrow> 'a list \<Rightarrow> nat option" where
  "find_if P [] = None"
| "find_if P (x # xs) = (if P x then Some 0 else map_option Suc (find_if P xs))"

text \<open>\<^verbatim>\<open>string_view::find(char)\<close>: \<open>None\<close> is \<^verbatim>\<open>npos\<close>.\<close>

definition find_chr :: "string \<Rightarrow> char \<Rightarrow> nat option" where
  "find_chr s c = find_if (\<lambda>x. x = c) s"

definition contains_chr :: "string \<Rightarrow> char \<Rightarrow> bool" where
  "contains_chr s c = (find_chr s c \<noteq> None)"

definition starts_with :: "string \<Rightarrow> string \<Rightarrow> bool" where
  "starts_with s p = (take (length p) s = p)"

text \<open>
  \<^verbatim>\<open>string_view::substr(pos, n)\<close> for \<open>pos\<close> within the string, clamped at the end.
  The count \<open>None\<close> stands for a count no string can reach: the default \<^verbatim>\<open>npos\<close>,
  and \<^verbatim>\<open>npos - 2\<close>.
\<close>

definition substr :: "string \<Rightarrow> nat \<Rightarrow> nat option \<Rightarrow> string" where
  "substr s pos n = (case n of None \<Rightarrow> drop pos s | Some m \<Rightarrow> take m (drop pos s))"

section \<open>Parser::parse\<close>

text \<open>
  The argument vector is the list \<open>argv\<close> and \<^verbatim>\<open>argc\<close> is its length; \<open>argv ! 0\<close> is
  the program name. The entries are C strings, so a token of a real run holds no NUL
  character; nothing below depends on it.
\<close>

text \<open>
  The branch of a long-option token at index \<open>i\<close>. It returns the index of the last
  token it used. \<^verbatim>\<open>arg.find('=')-2\<close> is computed on \<^verbatim>\<open>size_t\<close>: the token starts
  with two dashes, so a position found is at least 2.
\<close>

definition long_option ::
  "'u Flag list \<Rightarrow> string list \<Rightarrow> nat \<Rightarrow> 'u pstate \<Rightarrow> (nat, 'u pstate) outcome" where
  "long_option flags argv i s =
     (let arg = argv ! i;
          flag = substr arg 2 (map_option (\<lambda>p. p - 2) (find_chr arg CHR ''=''))
      in case find_if (\<lambda>f. long_name f = flag) flags of
           None \<Rightarrow>
             error_exit (argv ! 0 @ '': unknown option: '--'' @ flag
                          @ [CHR 0x27, newline]) s
         | Some k \<Rightarrow>
             if expects_value (flags ! k) then
               if contains_chr arg CHR ''='' then
                 (let optarg = substr arg (the (find_chr arg CHR ''='') + 1) None in
                  if length optarg = 0 then
                    error_exit (argv ! 0 @ '': option '--'' @ flag
                                 @ [CHR 0x27] @ '' requires an argument'' @ [newline]) s
                  else
                    (case invoke flags k optarg s of
                       Return _ s' \<Rightarrow> Return i s'
                     | Exit n s' \<Rightarrow> Exit n s'))
               else
                 if i = length argv - 1 then
                   error_exit (argv ! 0 @ '': option '--'' @ flag
                                @ [CHR 0x27] @ '' requires an argument'' @ [newline]) s
                 else
                   (case invoke flags k (argv ! (i + 1)) s of
                      Return _ s' \<Rightarrow> Return (i + 1) s'
                    | Exit n s' \<Rightarrow> Exit n s')
             else
               (case invoke flags k [] s of
                  Return _ s' \<Rightarrow> Return i s'
                | Exit n s' \<Rightarrow> Exit n s'))"

text \<open>
  The loop over the characters of a short-option token, from position \<open>j\<close>. It
  returns the index of the last token it used.
\<close>

function short_loop ::
  "'u Flag list \<Rightarrow> string list \<Rightarrow> string \<Rightarrow> nat \<Rightarrow> nat \<Rightarrow> 'u pstate \<Rightarrow> (nat, 'u pstate) outcome" where
  "short_loop flags argv flag i j s =
     (if j < length flag then
        (let c = flag ! j in
         case find_if (\<lambda>f. short_name f = c) flags of
           None \<Rightarrow>
             error_exit (argv ! 0 @ '': unknown option: '-'' @ [c]
                          @ [CHR 0x27, newline]) s
         | Some k \<Rightarrow>
             if expects_value (flags ! k) then
               if j \<noteq> length flag - 1 then
                 (case invoke flags k (substr flag (j + 1) None) s of
                    Return _ s' \<Rightarrow> Return i s'
                  | Exit n s' \<Rightarrow> Exit n s')
               else
                 if i = length argv - 1 then
                   error_exit (argv ! 0 @ '': option '-'' @ [c]
                                @ [CHR 0x27] @ '' requires an argument'' @ [newline]) s
                 else
                   (case invoke flags k (argv ! (i + 1)) s of
                      Return _ s' \<Rightarrow> short_loop flags argv flag (i + 1) (j + 1) s'
                    | Exit n s' \<Rightarrow> Exit n s')
             else
               (case invoke flags k [] s of
                  Return _ s' \<Rightarrow> short_loop flags argv flag i (j + 1) s'
                | Exit n s' \<Rightarrow> Exit n s'))
      else Return i s)"
  by pat_completeness auto
termination
  by (relation "measure (\<lambda>(flags, argv, flag, i, j, s). length flag - j)") auto

declare short_loop.simps [simp del]

text \<open>Neither branch moves the index backwards; the outer loop's termination rests on it.\<close>

lemma long_option_index:
  "long_option flags argv i s = Return i' s' \<Longrightarrow> i \<le> i'"
  by (cases s)
     (auto simp: long_option_def Let_def split: option.splits if_splits outcome.splits)

lemma short_loop_index:
  "short_loop flags argv flag i j s = Return i' s' \<Longrightarrow> i \<le> i'"
proof (induction flags argv flag i j s rule: short_loop.induct)
  case (1 flags argv flag i j s)
  obtain tr w where s: "s = (tr, w)" by (cases s)
  show ?case
  proof (cases "j < length flag")
    case False
    with "1.prems" show ?thesis
      by (subst (asm) short_loop.simps) simp
  next
    case True
    note j = this
    show ?thesis
    proof (cases "find_if (\<lambda>f. short_name f = flag ! j) flags")
      case None
      with "1.prems" j s show ?thesis
        by (subst (asm) short_loop.simps) simp
    next
      case (Some k)
      show ?thesis
      proof (cases "expects_value (flags ! k)")
        case False
        note nv = this
        show ?thesis
        proof (cases "invoke flags k [] s")
          case (Return u s1)
          from "1.prems" j Some nv Return
          have "short_loop flags argv flag i (j + 1) s1 = Return i' s'"
            by (subst (asm) short_loop.simps) simp
          with "1.IH"(2) [OF j refl Some nv Return] show ?thesis by simp
        next
          case (Exit n s1)
          with "1.prems" j Some nv show ?thesis
            by (subst (asm) short_loop.simps) simp
        qed
      next
        case True
        note ev = this
        show ?thesis
        proof (cases "j \<noteq> length flag - 1")
          case True
          with "1.prems" j Some ev show ?thesis
            by (subst (asm) short_loop.simps) (simp split: outcome.splits)
        next
          case False
          note last = this
          show ?thesis
          proof (cases "i = length argv - 1")
            case True
            with "1.prems" j Some ev last s show ?thesis
              by (subst (asm) short_loop.simps) simp
          next
            case False
            note more = this
            show ?thesis
            proof (cases "invoke flags k (argv ! (i + 1)) s")
              case (Return u s1)
              from "1.prems" j Some ev last more Return
              have "short_loop flags argv flag (i + 1) (j + 1) s1 = Return i' s'"
                by (subst (asm) short_loop.simps) simp
              with "1.IH"(1) [OF j refl Some ev last more Return] show ?thesis by simp
            next
              case (Exit n s1)
              with "1.prems" j Some ev last more show ?thesis
                by (subst (asm) short_loop.simps) simp
            qed
          qed
        qed
      qed
    qed
  qed
qed

text \<open>
  The loop over the tokens, from index \<open>i\<close>. \<^verbatim>\<open>argc\<close> is the length of \<open>argv\<close>.
\<close>

function parse_loop ::
  "'u Flag list \<Rightarrow> string list \<Rightarrow> nat \<Rightarrow> 'u pstate \<Rightarrow> (unit, 'u pstate) outcome" where
  "parse_loop flags argv i s =
     (if i < length argv then
        (let arg = argv ! i in
         if length arg \<ge> 3 \<and> starts_with arg ''--'' then
           (case long_option flags argv i s of
              Return i' s' \<Rightarrow> parse_loop flags argv (i' + 1) s'
            | Exit n s' \<Rightarrow> Exit n s')
         else if length arg \<ge> 2 \<and> starts_with arg ''-'' then
           (case short_loop flags argv (substr arg 1 None) i 0 s of
              Return i' s' \<Rightarrow> parse_loop flags argv (i' + 1) s'
            | Exit n s' \<Rightarrow> Exit n s')
         else parse_loop flags argv (i + 1) s)
      else Return () s)"
  by pat_completeness auto
termination
proof (relation "measure (\<lambda>(flags, argv, i, s). length argv - i)")
  show "wf (measure (\<lambda>(flags, argv, i, s). length argv - i))" by simp
next
  fix flags :: "'u Flag list" and argv i and s :: "'u pstate" and arg i' s'
  assume "i < length argv" and "long_option flags argv i s = Return i' s'"
  then show "((flags, argv, i' + 1, s'), flags, argv, i, s)
             \<in> measure (\<lambda>(flags, argv, i, s). length argv - i)"
    using long_option_index [of flags argv i s i' s'] by simp
next
  fix flags :: "'u Flag list" and argv i and s :: "'u pstate" and arg :: string and i' s'
  assume "i < length argv"
    and "short_loop flags argv (substr arg 1 None) i 0 s = Return i' s'"
  then show "((flags, argv, i' + 1, s'), flags, argv, i, s)
             \<in> measure (\<lambda>(flags, argv, i, s). length argv - i)"
    using short_loop_index [of flags argv "substr arg 1 None" i 0 s i' s'] by simp
next
  fix flags :: "'u Flag list" and argv :: "string list" and i and s :: "'u pstate"
  assume "i < length argv"
  then show "((flags, argv, i + 1, s), flags, argv, i, s)
             \<in> measure (\<lambda>(flags, argv, i, s). length argv - i)"
    by simp
qed

declare parse_loop.simps [simp del]

definition parse :: "'u Flag list \<Rightarrow> string list \<Rightarrow> 'u world \<Rightarrow> (unit, 'u pstate) outcome" where
  "parse flags argv w = parse_loop flags argv 1 ([], w)"

section \<open>The example programs of the repository\<close>

text \<open>
  The first example program: the variables its callbacks capture, the registry it
  builds, and the state in which it calls \<^verbatim>\<open>parser.parse(argc, argv)\<close>.
\<close>

record main_vars =
  main_flag :: bool
  main_filename :: string

definition example_flags :: "main_vars Flag list" where
  "example_flags =
     add_help
       (add
         (add
           (add []
             (Flag_short_long CHR ''f'' ''flag'' ''Set flag''
               (Fn0 (\<lambda>w. Return () (w\<lparr>user := (user w)\<lparr>main_flag := True\<rparr>\<rparr>)))))
           (Flag_long_arg ''filename'' ''Specify filename''
             (Fn1 (\<lambda>optarg w. Return () (w\<lparr>user := (user w)\<lparr>main_filename := optarg\<rparr>\<rparr>)))))
         (Flag_short_arg CHR ''p'' ''Print something''
           (Fn1 (\<lambda>optarg w. Return () (w\<lparr>cout := cout w @ optarg @ [newline]\<rparr>)))))
       ''example [args]''"

definition main_start :: "main_vars world" where
  "main_start = \<lparr>cout = [], cerr = [], user = \<lparr>main_flag = False, main_filename = []\<rparr>\<rparr>"

text \<open>
  The second example program, in the same way.
\<close>

record main2_vars =
  a_flag :: bool

definition example2_flags :: "main2_vars Flag list" where
  "example2_flags =
     add_help
       (add
         (add
           (add
             (add
               (add
                 (add []
                   (Flag_short_long CHR ''a'' ''ay'' ''A option''
                     (Fn0 (\<lambda>w. Return ()
                        (w\<lparr>user := (user w)\<lparr>a_flag := True\<rparr>,
                           cout := cout w @ ''a'' @ [newline]\<rparr>)))))
                 (Flag_long ''bee'' ''B option''
                   (Fn0 (\<lambda>w. Return () (w\<lparr>cout := cout w @ ''b'' @ [newline]\<rparr>)))))
               (Flag_short CHR ''c'' ''C option''
                 (Fn0 (\<lambda>w. Return () (w\<lparr>cout := cout w @ ''c'' @ [newline]\<rparr>)))))
             (Flag_short_long_arg CHR ''d'' ''dee'' ''D option''
               (Fn1 (\<lambda>optarg w. Return ()
                  (w\<lparr>cout := cout w @ ''d: '' @ optarg @ [newline]\<rparr>)))))
           (Flag_long_arg ''ee'' ''E option''
             (Fn1 (\<lambda>optarg w. Return ()
                (w\<lparr>cout := cout w @ ''e: '' @ optarg @ [newline]\<rparr>)))))
         (Flag_short_arg CHR ''f'' ''F option''
           (Fn1 (\<lambda>optarg w. Return ()
              (w\<lparr>cout := cout w @ ''f: '' @ optarg @ [newline]\<rparr>)))))
       ''example [-abc] [-def ARG]''"

definition main2_start :: "main2_vars world" where
  "main2_start = \<lparr>cout = [], cerr = [], user = \<lparr>a_flag = False\<rparr>\<rparr>"

section \<open>Notions the statements use\<close>

text \<open>
  The statements below describe a run as a sequence of calls: \<open>and_then r k\<close> continues
  with \<open>k\<close> when \<open>r\<close> returned, and ends where \<open>r\<close> ended the process.
\<close>

fun and_then :: "('a, 's) outcome \<Rightarrow> ('a \<Rightarrow> 's \<Rightarrow> ('b, 's) outcome) \<Rightarrow> ('b, 's) outcome" where
  "and_then (Return a s) k = k a s"
| "and_then (Exit n s) k = Exit n s"

text \<open>
  The identifier of a long-option token as the statements below name it: the text
  after the two dashes up to the first \<open>=\<close>. \<open>long_ident_substr\<close> shows that the
  expression of the source computes it.
\<close>

definition long_ident :: "string \<Rightarrow> string" where
  "long_ident arg = takeWhile (\<lambda>c. c \<noteq> CHR ''='') (drop 2 arg)"

text \<open>
  What the statements below say about the characters of a short-option token: the
  character resolves to a flag that takes no value; the position in the registry of
  the flag a character resolves to; and the calls, in order, of the callbacks of a
  run of such characters, each with the empty argument.
\<close>

definition novalue_short :: "'u Flag list \<Rightarrow> char \<Rightarrow> bool" where
  "novalue_short flags c =
     (case find_if (\<lambda>f. short_name f = c) flags of
        None \<Rightarrow> False
      | Some k \<Rightarrow> \<not> expects_value (flags ! k))"

definition short_index :: "'u Flag list \<Rightarrow> char \<Rightarrow> nat" where
  "short_index flags c = the (find_if (\<lambda>f. short_name f = c) flags)"

fun fire_each :: "'u Flag list \<Rightarrow> string \<Rightarrow> 'u pstate \<Rightarrow> (unit, 'u pstate) outcome" where
  "fire_each flags [] s = Return () s"
| "fire_each flags (c # cs) s =
     and_then (invoke flags (short_index flags c) [] s) (\<lambda>_ s'. fire_each flags cs s')"

text \<open>
  The callback of the flag at position \<open>k\<close> returns when, whatever its argument and
  the state, it does not end the process.
\<close>

definition returns :: "'u Flag list \<Rightarrow> nat \<Rightarrow> bool" where
  "returns flags k =
     (\<forall>optarg w. \<exists>w'. call1 flags (action (flags ! k)) optarg w = Return () w')"

text \<open>
  The index a branch returns, moved from a loop at \<open>i\<close> to a loop at \<open>i'\<close>.
\<close>

fun reindex :: "nat \<Rightarrow> nat \<Rightarrow> (nat, 's) outcome \<Rightarrow> (nat, 's) outcome" where
  "reindex i i' (Return r s) = Return (r - i + i') s"
| "reindex i i' (Exit n s) = Exit n s"

section \<open>The help page as the specification words it\<close>

text \<open>
  The left-hand column in the specification's words: a two-space indent, the short
  form and the long form, joined by a comma and a space when both are present, and
  \<^verbatim>\<open> ARG\<close> for a flag that expects a value.
\<close>

definition spec_lhs :: "'u Flag \<Rightarrow> string" where
  "spec_lhs f =
     ''  ''
     @ (if short_name f \<noteq> NUL \<and> long_name f \<noteq> []
          then ''-'' @ [short_name f] @ '', '' @ ''--'' @ long_name f
        else if short_name f \<noteq> NUL then ''-'' @ [short_name f]
        else if long_name f \<noteq> [] then ''--'' @ long_name f
        else [])
     @ (if expects_value f then '' ARG'' else [])"

text \<open>
  The lines of one flag as the claim words them: a left-hand column of at most 32
  characters is padded to width 32 and followed by one space and the description;
  a longer one stands alone, and the description follows on the next line,
  indented to width 32.
\<close>

definition spec_entry_claimed :: "'u Flag \<Rightarrow> string" where
  "spec_entry_claimed f =
     (if length (spec_lhs f) \<le> 32
      then spec_lhs f @ replicate (32 - length (spec_lhs f)) CHR '' '' @ '' ''
           @ description f @ [newline]
      else spec_lhs f @ [newline] @ replicate 32 CHR '' '' @ description f @ [newline])"

text \<open>
  The same with the amendment: on the next line the description comes after the 32
  columns of indentation and the single separating space, as in the padded case.
\<close>

definition spec_entry :: "'u Flag \<Rightarrow> string" where
  "spec_entry f =
     (if length (spec_lhs f) \<le> 32
      then spec_lhs f @ replicate (32 - length (spec_lhs f)) CHR '' '' @ '' ''
           @ description f @ [newline]
      else spec_lhs f @ [newline] @ replicate 32 CHR '' '' @ '' ''
           @ description f @ [newline])"

text \<open>
  A flag whose left-hand column is 41 characters wide.
\<close>

definition wide_flag :: "unit Flag" where
  "wide_flag = Flag_long_arg ''a-long-name-that-fills-the-column'' ''Wide''
                 (Fn1 (\<lambda>optarg w. Return () w))"

section \<open>Facts about sequencing and the helpers\<close>

lemma and_then_case:
  "and_then r k = (case r of Return a s \<Rightarrow> k a s | Exit n s \<Rightarrow> Exit n s)"
  by (cases r) simp_all

lemma and_then_assoc:
  "and_then (and_then r f) g = and_then r (\<lambda>a s. and_then (f a s) g)"
  by (cases r) simp_all

lemma and_then_Return: "and_then r Return = r"
  by (cases r) simp_all

lemma and_then_error_exit [simp]: "and_then (error_exit msg s) k = error_exit msg s"
  by (cases s) simp

lemma error_exit_eq:
  "error_exit msg = (\<lambda>(tr, w). Exit 1 (tr, w\<lparr>cerr := cerr w @ msg\<rparr>))"
  by (auto simp: fun_eq_iff)

lemma find_if_None: "find_if P xs = None \<longleftrightarrow> (\<forall>x\<in>set xs. \<not> P x)"
  by (induction xs) auto

lemma find_if_Some:
  "find_if P xs = Some k \<Longrightarrow> k < length xs \<and> P (xs ! k) \<and> (\<forall>j<k. \<not> P (xs ! j))"
proof (induction xs arbitrary: k)
  case Nil
  then show ?case by simp
next
  case (Cons x xs)
  show ?case
  proof (cases "P x")
    case True
    with Cons.prems show ?thesis by simp
  next
    case False
    with Cons.prems obtain k' where k': "find_if P xs = Some k'" "k = Suc k'"
      by auto
    from Cons.IH [OF k'(1)] False k'(2) show ?thesis
      by (auto simp: less_Suc_eq_0_disj)
  qed
qed

lemma find_if_first:
  "k < length xs \<Longrightarrow> P (xs ! k) \<Longrightarrow> \<forall>j<k. \<not> P (xs ! j) \<Longrightarrow> find_if P xs = Some k"
proof (induction xs arbitrary: k)
  case Nil
  then show ?case by simp
next
  case (Cons x xs)
  show ?case
  proof (cases k)
    case 0
    with Cons.prems show ?thesis by simp
  next
    case (Suc m)
    with Cons.prems have "\<not> P x" by auto
    moreover from Cons.prems Suc have "find_if P xs = Some m"
      by (intro Cons.IH) auto
    ultimately show ?thesis using Suc by simp
  qed
qed

lemma find_if_append:
  "find_if P (xs @ ys) =
     (case find_if P xs of Some k \<Rightarrow> Some k
      | None \<Rightarrow> map_option (\<lambda>k. length xs + k) (find_if P ys))"
  by (induction xs) (cases "find_if P ys"; auto split: option.splits)+

lemma find_if_takeWhile:
  "find_if P xs = Some p \<Longrightarrow> takeWhile (\<lambda>x. \<not> P x) xs = take p xs"
proof (induction xs arbitrary: p)
  case Nil
  then show ?case by simp
next
  case (Cons x xs)
  then show ?case by (cases "P x") auto
qed

lemma find_if_drop:
  "\<forall>x\<in>set (take n xs). \<not> P x \<Longrightarrow> find_if P xs = map_option (\<lambda>k. n + k) (find_if P (drop n xs))"
proof (induction xs arbitrary: n)
  case Nil
  then show ?case by simp
next
  case (Cons x xs)
  show ?case
  proof (cases n)
    case 0
    then show ?thesis by (cases "find_if P (x # xs)") simp_all
  next
    case (Suc m)
    with Cons.prems have "\<not> P x" and "\<forall>x\<in>set (take m xs). \<not> P x" by simp_all
    with Cons.IH [of m] Suc show ?thesis
      by (cases "find_if P (drop m xs)") simp_all
  qed
qed

lemma find_chr_absent: "c \<notin> set s \<Longrightarrow> find_chr s c = None"
  by (auto simp: find_chr_def find_if_None)

lemma find_chr_first:
  "c \<notin> set pre \<Longrightarrow> find_chr (pre @ c # post) c = Some (length pre)"
proof -
  assume "c \<notin> set pre"
  then have "find_if (\<lambda>x. x = c) pre = None"
    by (auto simp: find_if_None)
  then show ?thesis
    by (simp add: find_chr_def find_if_append)
qed

lemma long_ident_substr:
  assumes "starts_with arg ''--''"
  shows "substr arg 2 (map_option (\<lambda>p. p - 2) (find_chr arg CHR ''='')) = long_ident arg"
proof -
  from assms have t: "take 2 arg = ''--''" by (simp add: starts_with_def numeral_2_eq_2)
  then have "\<forall>x\<in>set (take 2 arg). \<not> x = CHR ''=''" by simp
  from find_if_drop [of 2 arg "\<lambda>x. x = CHR ''=''", OF this]
  have f: "find_chr arg CHR ''='' = map_option (\<lambda>k. 2 + k) (find_chr (drop 2 arg) CHR ''='')"
    by (simp add: find_chr_def)
  show ?thesis
  proof (cases "find_chr (drop 2 arg) CHR ''=''")
    case None
    then have "\<forall>x\<in>set (drop 2 arg). x \<noteq> CHR ''=''"
      by (simp add: find_chr_def find_if_None)
    then have "takeWhile (\<lambda>c. c \<noteq> CHR ''='') (drop 2 arg) = drop 2 arg"
      by simp
    have tw: "takeWhile (\<lambda>c. c \<noteq> CHR ''='') (drop 2 arg) = drop 2 arg"
      by (fact \<open>takeWhile (\<lambda>c. c \<noteq> CHR ''='') (drop 2 arg) = drop 2 arg\<close>)
    have "substr arg 2 (map_option (\<lambda>p. p - 2) (find_chr arg CHR ''='')) = drop 2 arg"
      using None f by (simp add: substr_def)
    then show ?thesis unfolding long_ident_def tw .
  next
    case (Some p)
    then have "takeWhile (\<lambda>c. \<not> c = CHR ''='') (drop 2 arg) = take p (drop 2 arg)"
      unfolding find_chr_def by (rule find_if_takeWhile)
    with Some f show ?thesis by (simp add: substr_def long_ident_def)
  qed
qed

lemma long_ident_attached [simp]:
  "CHR ''='' \<notin> set name \<Longrightarrow> long_ident (CHR ''-'' # CHR ''-'' # name @ CHR ''='' # v) = name"
  by (auto simp: long_ident_def takeWhile_tail)

lemma long_ident_plain [simp]:
  "CHR ''='' \<notin> set name \<Longrightarrow> long_ident (CHR ''-'' # CHR ''-'' # name) = name"
  by (auto simp: long_ident_def)

lemma starts_with_dashes [simp]: "starts_with (CHR ''-'' # CHR ''-'' # rest) ''--''"
  by (simp add: starts_with_def)

section \<open>The branches of a long-option token\<close>

lemma long_option_unknown:
  assumes "starts_with (argv ! i) ''--''"
    and "find_if (\<lambda>f. long_name f = long_ident (argv ! i)) flags = None"
  shows "long_option flags argv i (tr, w) =
           Exit 1 (tr, w\<lparr>cerr := cerr w @ argv ! 0 @ '': unknown option: '--''
                                 @ long_ident (argv ! i) @ [CHR 0x27, newline]\<rparr>)"
  unfolding long_option_def Let_def long_ident_substr [OF assms(1)]
  using assms(2) by simp

lemma long_option_novalue:
  assumes "starts_with (argv ! i) ''--''"
    and "find_if (\<lambda>f. long_name f = long_ident (argv ! i)) flags = Some k"
    and "\<not> expects_value (flags ! k)"
  shows "long_option flags argv i s = and_then (invoke flags k [] s) (\<lambda>_. Return i)"
  unfolding long_option_def Let_def long_ident_substr [OF assms(1)]
  using assms(2,3) by (auto split: outcome.splits)

lemma long_option_attached:
  assumes "argv ! i = ''--'' @ name @ CHR ''='' # v" and "CHR ''='' \<notin> set name"
    and "find_if (\<lambda>f. long_name f = name) flags = Some k"
    and "expects_value (flags ! k)" and "v \<noteq> []"
  shows "long_option flags argv i s = and_then (invoke flags k v s) (\<lambda>_. Return i)"
proof -
  have sw: "starts_with (argv ! i) ''--''" using assms(1) by simp
  have f: "find_chr (argv ! i) CHR ''='' = Some (length name + 2)"
    using find_chr_first [of "CHR ''=''" "''--'' @ name" v] assms(1,2) by simp
  have "long_ident (argv ! i) = name" using assms(1,2) by simp
  with long_ident_substr [OF sw]
  have id: "substr (argv ! i) 2 (map_option (\<lambda>p. p - 2) (find_chr (argv ! i) CHR ''='')) = name"
    by (simp only:)
  have oa: "substr (argv ! i) (length name + 2 + 1) None = v"
    using assms(1) by (simp add: substr_def)
  show ?thesis
    unfolding long_option_def Let_def id
    unfolding contains_chr_def f option.sel oa
    using assms(3,4,5) by (auto split: outcome.splits)
qed

lemma long_option_attached_empty:
  assumes "argv ! i = ''--'' @ name @ ''=''" and "CHR ''='' \<notin> set name"
    and "find_if (\<lambda>f. long_name f = name) flags = Some k"
    and "expects_value (flags ! k)"
  shows "long_option flags argv i (tr, w) =
           Exit 1 (tr, w\<lparr>cerr := cerr w @ argv ! 0 @ '': option '--'' @ name
                                 @ [CHR 0x27] @ '' requires an argument'' @ [newline]\<rparr>)"
proof -
  have sw: "starts_with (argv ! i) ''--''" using assms(1) by simp
  have f: "find_chr (argv ! i) CHR ''='' = Some (length name + 2)"
    using find_chr_first [of "CHR ''=''" "''--'' @ name" "[]"] assms(1,2) by simp
  have "long_ident (argv ! i) = name" using assms(1,2) by simp
  with long_ident_substr [OF sw]
  have id: "substr (argv ! i) 2 (map_option (\<lambda>p. p - 2) (find_chr (argv ! i) CHR ''='')) = name"
    by (simp only:)
  have oa: "substr (argv ! i) (length name + 2 + 1) None = []"
    using assms(1) by (simp add: substr_def)
  show ?thesis
    unfolding long_option_def Let_def id
    unfolding contains_chr_def f option.sel oa
    using assms(3,4) by simp
qed

lemma long_option_detached:
  assumes "argv ! i = ''--'' @ name" and "CHR ''='' \<notin> set name"
    and "find_if (\<lambda>f. long_name f = name) flags = Some k"
    and "expects_value (flags ! k)" and "Suc i < length argv"
  shows "long_option flags argv i s =
           and_then (invoke flags k (argv ! (i + 1)) s) (\<lambda>_. Return (i + 1))"
proof -
  have sw: "starts_with (argv ! i) ''--''" using assms(1) by simp
  have f: "find_chr (argv ! i) CHR ''='' = None"
    using find_chr_absent [of "CHR ''=''" "''--'' @ name"] assms(1,2) by simp
  have "long_ident (argv ! i) = name" using assms(1,2) by simp
  with long_ident_substr [OF sw]
  have id: "substr (argv ! i) 2 (map_option (\<lambda>p. p - 2) (find_chr (argv ! i) CHR ''='')) = name"
    by (simp only:)
  have ne: "i \<noteq> length argv - 1" using assms(5) by simp
  show ?thesis
    unfolding long_option_def Let_def id
    unfolding contains_chr_def f
    using assms(3,4) ne by (auto split: outcome.splits)
qed

lemma long_option_detached_missing:
  assumes "argv ! i = ''--'' @ name" and "CHR ''='' \<notin> set name"
    and "find_if (\<lambda>f. long_name f = name) flags = Some k"
    and "expects_value (flags ! k)" and "Suc i = length argv"
  shows "long_option flags argv i (tr, w) =
           Exit 1 (tr, w\<lparr>cerr := cerr w @ argv ! 0 @ '': option '--'' @ name
                                 @ [CHR 0x27] @ '' requires an argument'' @ [newline]\<rparr>)"
proof -
  have sw: "starts_with (argv ! i) ''--''" using assms(1) by simp
  have f: "find_chr (argv ! i) CHR ''='' = None"
    using find_chr_absent [of "CHR ''=''" "''--'' @ name"] assms(1,2) by simp
  have "long_ident (argv ! i) = name" using assms(1,2) by simp
  with long_ident_substr [OF sw]
  have id: "substr (argv ! i) 2 (map_option (\<lambda>p. p - 2) (find_chr (argv ! i) CHR ''='')) = name"
    by (simp only:)
  have e: "i = length argv - 1" using assms(5) by simp
  show ?thesis
    unfolding long_option_def Let_def id
    unfolding contains_chr_def f
    using assms(3,4) e by simp
qed

section \<open>The branches of the character loop\<close>

lemma short_loop_done:
  "\<not> j < length flag \<Longrightarrow> short_loop flags argv flag i j s = Return i s"
  by (subst short_loop.simps) simp

lemma short_loop_unknown:
  assumes "j < length flag"
    and "find_if (\<lambda>f. short_name f = flag ! j) flags = None"
  shows "short_loop flags argv flag i j (tr, w) =
           Exit 1 (tr, w\<lparr>cerr := cerr w @ argv ! 0 @ '': unknown option: '-'' @ [flag ! j]
                                 @ [CHR 0x27, newline]\<rparr>)"
  using assms by (subst short_loop.simps) simp

lemma short_loop_novalue:
  assumes "j < length flag"
    and "find_if (\<lambda>f. short_name f = flag ! j) flags = Some k"
    and "\<not> expects_value (flags ! k)"
  shows "short_loop flags argv flag i j s =
           and_then (invoke flags k [] s) (\<lambda>_ s'. short_loop flags argv flag i (j + 1) s')"
  using assms by (subst short_loop.simps) (auto split: outcome.splits)

lemma short_loop_attached:
  assumes "j < length flag"
    and "find_if (\<lambda>f. short_name f = flag ! j) flags = Some k"
    and "expects_value (flags ! k)" and "j \<noteq> length flag - 1"
  shows "short_loop flags argv flag i j s =
           and_then (invoke flags k (drop (j + 1) flag) s) (\<lambda>_. Return i)"
  using assms by (subst short_loop.simps) (auto simp: substr_def split: outcome.splits)

lemma short_loop_detached:
  assumes "j < length flag"
    and "find_if (\<lambda>f. short_name f = flag ! j) flags = Some k"
    and "expects_value (flags ! k)" and "j = length flag - 1" and "i \<noteq> length argv - 1"
  shows "short_loop flags argv flag i j s =
           and_then (invoke flags k (argv ! (i + 1)) s) (\<lambda>_. Return (i + 1))"
  using assms by (subst short_loop.simps) (auto simp: short_loop_done split: outcome.splits)

lemma short_loop_detached_missing:
  assumes "j < length flag"
    and "find_if (\<lambda>f. short_name f = flag ! j) flags = Some k"
    and "expects_value (flags ! k)" and "j = length flag - 1" and "i = length argv - 1"
  shows "short_loop flags argv flag i j (tr, w) =
           Exit 1 (tr, w\<lparr>cerr := cerr w @ argv ! 0 @ '': option '-'' @ [flag ! j]
                                 @ [CHR 0x27] @ '' requires an argument'' @ [newline]\<rparr>)"
  using assms by (subst short_loop.simps) simp

lemma short_loop_prefix:
  assumes "\<forall>c\<in>set pre. novalue_short flags c"
  shows "short_loop flags argv (done @ pre @ rest) i (length done) s =
           and_then (fire_each flags pre s)
             (\<lambda>_ s'. short_loop flags argv (done @ pre @ rest) i (length done + length pre) s')"
  using assms
proof (induction pre arbitrary: "done" s)
  case Nil
  then show ?case by simp
next
  case (Cons c pre)
  from Cons.prems obtain k where k: "find_if (\<lambda>f. short_name f = c) flags = Some k"
    and nv: "\<not> expects_value (flags ! k)"
    by (auto simp: novalue_short_def split: option.splits)
  have idx: "short_index flags c = k" using k by (simp add: short_index_def)
  have step: "short_loop flags argv (done @ (c # pre) @ rest) i (length done) s =
                and_then (invoke flags k [] s)
                  (\<lambda>_ s'. short_loop flags argv (done @ (c # pre) @ rest) i (length done + 1) s')"
    by (rule short_loop_novalue) (use k nv in simp_all)
  have IH: "short_loop flags argv (done @ c # pre @ rest) i (Suc (length done)) s' =
              and_then (fire_each flags pre s')
                (\<lambda>_ s''. short_loop flags argv (done @ c # pre @ rest) i
                            (Suc (length done + length pre)) s'')" for s'
    using Cons.IH [of "done @ [c]" s'] Cons.prems by simp
  show ?case
    unfolding step by (cases "invoke flags k [] s") (simp_all add: IH idx)
qed

lemma fire_each_append:
  "fire_each flags (xs @ ys) s =
     and_then (fire_each flags xs s) (\<lambda>_ s'. fire_each flags ys s')"
proof (induction xs arbitrary: s)
  case Nil
  show ?case by simp
next
  case (Cons x xs)
  show ?case
    by (cases "invoke flags (short_index flags x) [] s") (simp_all add: Cons.IH)
qed

lemma invoke_returns:
  assumes "returns flags k"
  shows "\<exists>w'. invoke flags k optarg (tr, w) = Return () (tr @ [(k, optarg)], w')"
proof -
  from assms obtain w' where "call1 flags (action (flags ! k)) optarg w = Return () w'"
    unfolding returns_def by blast
  then show ?thesis by simp
qed

lemma fire_each_log:
  assumes "\<forall>c\<in>set cs. returns flags (short_index flags c)"
  shows "\<exists>w'. fire_each flags cs (tr, w) =
               Return () (tr @ map (\<lambda>c. (short_index flags c, [])) cs, w')"
  using assms
proof (induction cs arbitrary: tr w)
  case Nil
  show ?case by simp
next
  case (Cons c cs)
  from Cons.prems have "returns flags (short_index flags c)" by simp
  from invoke_returns [OF this, of "[]" tr w] obtain w1 where
    w1: "invoke flags (short_index flags c) [] (tr, w) =
           Return () (tr @ [(short_index flags c, [])], w1)" by blast
  from Cons.prems have "\<forall>c\<in>set cs. returns flags (short_index flags c)" by simp
  from Cons.IH [OF this, of "tr @ [(short_index flags c, [])]" w1] obtain w2 where
    "fire_each flags cs (tr @ [(short_index flags c, [])], w1) =
       Return () ((tr @ [(short_index flags c, [])])
                    @ map (\<lambda>c. (short_index flags c, [])) cs, w2)" by blast
  with w1 show ?case by simp
qed

lemma short_index_inj:
  assumes "novalue_short flags a" and "novalue_short flags b"
    and "short_index flags a = short_index flags b"
  shows "a = b"
proof -
  from assms(1) obtain k where k: "find_if (\<lambda>f. short_name f = a) flags = Some k"
    by (auto simp: novalue_short_def split: option.splits)
  from assms(2) obtain l where l: "find_if (\<lambda>f. short_name f = b) flags = Some l"
    by (auto simp: novalue_short_def split: option.splits)
  from find_if_Some [OF k] have "short_name (flags ! k) = a" by simp
  moreover from find_if_Some [OF l] have "short_name (flags ! l) = b" by simp
  moreover from assms(3) k l have "k = l" by (simp add: short_index_def)
  ultimately show ?thesis by simp
qed

section \<open>One step of the token loop\<close>

lemma parse_loop_end: "\<not> i < length argv \<Longrightarrow> parse_loop flags argv i s = Return () s"
  by (subst parse_loop.simps) simp

lemma parse_loop_skip:
  "i < length argv \<Longrightarrow> \<not> (3 \<le> length (argv ! i) \<and> starts_with (argv ! i) ''--'') \<Longrightarrow>
   \<not> (2 \<le> length (argv ! i) \<and> starts_with (argv ! i) ''-'') \<Longrightarrow>
   parse_loop flags argv i s = parse_loop flags argv (i + 1) s"
  by (subst parse_loop.simps) (auto simp: Let_def)

lemma parse_loop_long:
  "i < length argv \<Longrightarrow> 3 \<le> length (argv ! i) \<Longrightarrow> starts_with (argv ! i) ''--'' \<Longrightarrow>
   parse_loop flags argv i s =
     and_then (long_option flags argv i s) (\<lambda>i' s'. parse_loop flags argv (i' + 1) s')"
  by (subst parse_loop.simps) (auto simp: Let_def split: outcome.splits)

lemma parse_loop_short:
  "i < length argv \<Longrightarrow> \<not> (3 \<le> length (argv ! i) \<and> starts_with (argv ! i) ''--'') \<Longrightarrow>
   2 \<le> length (argv ! i) \<Longrightarrow> starts_with (argv ! i) ''-'' \<Longrightarrow>
   parse_loop flags argv i s =
     and_then (short_loop flags argv (drop 1 (argv ! i)) i 0 s)
       (\<lambda>i' s'. parse_loop flags argv (i' + 1) s')"
  by (subst parse_loop.simps) (auto simp: Let_def substr_def split: outcome.splits)

lemma parse_loop_short_token:
  assumes "i < length argv" and "argv ! i = CHR ''-'' # cs" and "cs \<noteq> []"
    and "\<not> (3 \<le> length (argv ! i) \<and> starts_with (argv ! i) ''--'')"
  shows "parse_loop flags argv i s =
           and_then (short_loop flags argv cs i 0 s) (\<lambda>i' s'. parse_loop flags argv (i' + 1) s')"
proof -
  have "2 \<le> length (argv ! i)" using assms(2,3) by (cases cs) simp_all
  moreover have "starts_with (argv ! i) ''-''" using assms(2) by (simp add: starts_with_def)
  ultimately show ?thesis
    using parse_loop_short [OF assms(1) assms(4), of flags s] assms(2) by simp
qed

lemma parse_loop_short_run:
  assumes "i < length argv" and "argv ! i = ''-'' @ pre @ rest"
    and "pre @ rest \<noteq> []"
    and "\<not> (3 \<le> length (argv ! i) \<and> starts_with (argv ! i) ''--'')"
    and "\<forall>x\<in>set pre. novalue_short flags x"
  shows "parse_loop flags argv i s =
           and_then (fire_each flags pre s)
             (\<lambda>_ s1. and_then (short_loop flags argv (pre @ rest) i (length pre) s1)
               (\<lambda>i' s'. parse_loop flags argv (i' + 1) s'))"
proof -
  have step: "parse_loop flags argv i s =
      and_then (short_loop flags argv (pre @ rest) i 0 s)
        (\<lambda>i' s'. parse_loop flags argv (i' + 1) s')"
    using assms(1-4) by (intro parse_loop_short_token) simp_all
  have run: "short_loop flags argv (pre @ rest) i 0 s =
      and_then (fire_each flags pre s)
        (\<lambda>_ s'. short_loop flags argv (pre @ rest) i (length pre) s')"
    using short_loop_prefix [OF assms(5), of argv "[]" rest i s] by simp
  show ?thesis
    unfolding step run by (simp only: and_then_assoc)
qed

lemma parse_loop_short_unknown:
  assumes "i < length argv" and "argv ! i = ''-'' @ pre @ [c] @ rest"
    and "\<not> (3 \<le> length (argv ! i) \<and> starts_with (argv ! i) ''--'')"
    and "\<forall>x\<in>set pre. novalue_short flags x"
    and "find_if (\<lambda>f. short_name f = c) flags = None"
  shows "parse_loop flags argv i s =
           and_then (fire_each flags pre s)
             (\<lambda>_ s1. error_exit (argv ! 0 @ '': unknown option: '-'' @ [c]
                                  @ [CHR 0x27, newline]) s1)"
proof -
  have run: "parse_loop flags argv i s =
      and_then (fire_each flags pre s)
        (\<lambda>_ s1. and_then (short_loop flags argv (pre @ [c] @ rest) i (length pre) s1)
          (\<lambda>i' s'. parse_loop flags argv (i' + 1) s'))"
    using assms(1-4) by (intro parse_loop_short_run) simp_all
  have at: "short_loop flags argv (pre @ [c] @ rest) i (length pre) s1 =
      error_exit (argv ! 0 @ '': unknown option: '-'' @ [c] @ [CHR 0x27, newline]) s1" for s1
  proof -
    obtain tr w where s1: "s1 = (tr, w)" by (cases s1)
    have j: "length pre < length (pre @ [c] @ rest)" by simp
    have n: "find_if (\<lambda>f. short_name f = (pre @ [c] @ rest) ! length pre) flags = None"
      using assms(5) by simp
    have "(pre @ [c] @ rest) ! length pre = c" by simp
    with short_loop_unknown [OF j n, of argv i tr w] show ?thesis
      unfolding s1 by (simp only: error_exit.simps)
  qed
  show ?thesis
    unfolding run
    by (cases "fire_each flags pre s") (simp_all only: and_then.simps at and_then_error_exit)
qed

lemma parse_loop_short_attached:
  assumes "i < length argv" and "argv ! i = ''-'' @ pre @ [c] @ rest" and "rest \<noteq> []"
    and "\<not> (3 \<le> length (argv ! i) \<and> starts_with (argv ! i) ''--'')"
    and "\<forall>x\<in>set pre. novalue_short flags x"
    and "find_if (\<lambda>f. short_name f = c) flags = Some k"
    and "expects_value (flags ! k)"
  shows "parse_loop flags argv i s =
           and_then (fire_each flags pre s)
             (\<lambda>_ s1. and_then (invoke flags k rest s1)
               (\<lambda>_ s2. parse_loop flags argv (i + 1) s2))"
proof -
  have run: "parse_loop flags argv i s =
      and_then (fire_each flags pre s)
        (\<lambda>_ s1. and_then (short_loop flags argv (pre @ [c] @ rest) i (length pre) s1)
          (\<lambda>i' s'. parse_loop flags argv (i' + 1) s'))"
    using assms(1-5) by (intro parse_loop_short_run) simp_all
  have at: "short_loop flags argv (pre @ [c] @ rest) i (length pre) s1 =
      and_then (invoke flags k rest s1) (\<lambda>_. Return i)" for s1
  proof -
    have j: "length pre < length (pre @ [c] @ rest)" by simp
    have kk: "find_if (\<lambda>f. short_name f = (pre @ [c] @ rest) ! length pre) flags = Some k"
      using assms(6) by simp
    have nl: "length pre \<noteq> length (pre @ [c] @ rest) - 1" using assms(3) by (cases rest) simp_all
    have "drop (length pre + 1) (pre @ [c] @ rest) = rest" by simp
    with short_loop_attached [OF j kk assms(7) nl, of argv i s1] show ?thesis
      by (simp only:)
  qed
  show ?thesis
    unfolding run
    by (cases "fire_each flags pre s")
       (simp_all only: and_then.simps at, simp_all add: and_then_assoc)
qed

lemma parse_loop_short_detached:
  assumes "i < length argv" and "argv ! i = ''-'' @ pre @ [c]"
    and "\<not> (3 \<le> length (argv ! i) \<and> starts_with (argv ! i) ''--'')"
    and "\<forall>x\<in>set pre. novalue_short flags x"
    and "find_if (\<lambda>f. short_name f = c) flags = Some k"
    and "expects_value (flags ! k)" and "Suc i < length argv"
  shows "parse_loop flags argv i s =
           and_then (fire_each flags pre s)
             (\<lambda>_ s1. and_then (invoke flags k (argv ! (i + 1)) s1)
               (\<lambda>_ s2. parse_loop flags argv (i + 2) s2))"
proof -
  have run: "parse_loop flags argv i s =
      and_then (fire_each flags pre s)
        (\<lambda>_ s1. and_then (short_loop flags argv (pre @ [c]) i (length pre) s1)
          (\<lambda>i' s'. parse_loop flags argv (i' + 1) s'))"
    using assms(1-4) by (intro parse_loop_short_run) simp_all
  have at: "short_loop flags argv (pre @ [c]) i (length pre) s1 =
      and_then (invoke flags k (argv ! (i + 1)) s1) (\<lambda>_. Return (i + 1))" for s1
    using assms(5,6,7) by (intro short_loop_detached) simp_all
  show ?thesis
    unfolding run
    by (cases "fire_each flags pre s")
       (simp_all only: and_then.simps at, simp_all add: and_then_assoc)
qed

lemma parse_loop_short_missing:
  assumes "i < length argv" and "argv ! i = ''-'' @ pre @ [c]"
    and "\<not> (3 \<le> length (argv ! i) \<and> starts_with (argv ! i) ''--'')"
    and "\<forall>x\<in>set pre. novalue_short flags x"
    and "find_if (\<lambda>f. short_name f = c) flags = Some k"
    and "expects_value (flags ! k)" and "Suc i = length argv"
  shows "parse_loop flags argv i s =
           and_then (fire_each flags pre s)
             (\<lambda>_ s1. error_exit (argv ! 0 @ '': option '-'' @ [c] @ [CHR 0x27]
                                  @ '' requires an argument'' @ [newline]) s1)"
proof -
  have run: "parse_loop flags argv i s =
      and_then (fire_each flags pre s)
        (\<lambda>_ s1. and_then (short_loop flags argv (pre @ [c]) i (length pre) s1)
          (\<lambda>i' s'. parse_loop flags argv (i' + 1) s'))"
    using assms(1-4) by (intro parse_loop_short_run) simp_all
  have at: "short_loop flags argv (pre @ [c]) i (length pre) s1 =
      error_exit (argv ! 0 @ '': option '-'' @ [c] @ [CHR 0x27]
                   @ '' requires an argument'' @ [newline]) s1" for s1
  proof -
    obtain tr w where s1: "s1 = (tr, w)" by (cases s1)
    have j: "length pre < length (pre @ [c])" by simp
    have kk: "find_if (\<lambda>f. short_name f = (pre @ [c]) ! length pre) flags = Some k"
      using assms(5) by simp
    have l: "length pre = length (pre @ [c]) - 1" by simp
    have e: "i = length argv - 1" using assms(7) by simp
    have "(pre @ [c]) ! length pre = c" by simp
    with short_loop_detached_missing [OF j kk assms(6) l e, of tr w]
    show ?thesis unfolding s1 by (simp only: error_exit.simps)
  qed
  show ?thesis
    unfolding run
    by (cases "fire_each flags pre s") (simp_all only: and_then.simps at and_then_error_exit)
qed

section \<open>The loop depends on the program name and the remaining tokens only\<close>

lemma long_option_shift:
  assumes "argv ! 0 = argv' ! 0" and "argv ! i = argv' ! i'"
    and "(i = length argv - 1) = (i' = length argv' - 1)"
    and "i \<noteq> length argv - 1 \<Longrightarrow> argv ! (i + 1) = argv' ! (i' + 1)"
  shows "long_option flags argv' i' s = reindex i i' (long_option flags argv i s)"
  unfolding long_option_def Let_def using assms
  by (cases s) (auto split: option.splits outcome.splits)

lemma short_loop_shift:
  assumes "argv ! 0 = argv' ! 0"
    and "(i = length argv - 1) = (i' = length argv' - 1)"
    and "i \<noteq> length argv - 1 \<Longrightarrow> argv ! (i + 1) = argv' ! (i' + 1)"
  shows "short_loop flags argv' flag i' j s = reindex i i' (short_loop flags argv flag i j s)"
  using assms
proof (induction "length flag - j" arbitrary: j s rule: less_induct)
  case less
  obtain tr w where s: "s = (tr, w)" by (cases s)
  show ?case
  proof (cases "j < length flag")
    case False
    then show ?thesis by (simp add: short_loop_done)
  next
    case True
    note j = this
    show ?thesis
    proof (cases "find_if (\<lambda>f. short_name f = flag ! j) flags")
      case None
      from short_loop_unknown [OF j None, of argv i tr w]
        short_loop_unknown [OF j None, of argv' i' tr w] less.prems(1)
      show ?thesis unfolding s by simp
    next
      case (Some k)
      show ?thesis
      proof (cases "expects_value (flags ! k)")
        case False
        have IH: "short_loop flags argv' flag i' (Suc j) s' =
                    reindex i i' (short_loop flags argv flag i (Suc j) s')" for s'
          using j less.prems by (intro less.hyps) simp_all
        show ?thesis
          unfolding short_loop_novalue [OF j Some False]
          by (cases "invoke flags k [] s") (simp_all add: IH)
      next
        case True
        note ev = this
        show ?thesis
        proof (cases "j \<noteq> length flag - 1")
          case True
          show ?thesis
            unfolding short_loop_attached [OF j Some ev True]
            by (cases "invoke flags k (drop (j + 1) flag) s") simp_all
        next
          case False
          then have l: "j = length flag - 1" by simp
          show ?thesis
          proof (cases "i = length argv - 1")
            case True
            with less.prems(2) have e': "i' = length argv' - 1" by simp
            from short_loop_detached_missing [OF j Some ev l True, of tr w]
              short_loop_detached_missing [OF j Some ev l e', of tr w] less.prems(1)
            show ?thesis unfolding s by simp
          next
            case False
            with less.prems(2) have ne': "i' \<noteq> length argv' - 1" by simp
            from less.prems(3) [OF False] have nxt: "argv ! (i + 1) = argv' ! (i' + 1)" .
            show ?thesis
              unfolding short_loop_detached [OF j Some ev l False]
                short_loop_detached [OF j Some ev l ne'] nxt
              by (cases "invoke flags k (argv' ! (i' + 1)) s") simp_all
          qed
        qed
      qed
    qed
  qed
qed

lemma parse_loop_shift:
  assumes "argv ! 0 = argv' ! 0" and "drop i argv = drop i' argv'"
  shows "parse_loop flags argv i s = parse_loop flags argv' i' s"
  using assms(2)
proof (induction "length argv - i" arbitrary: i i' s rule: less_induct)
  case less
  show ?case
  proof (cases "i < length argv")
    case False
    with less.prems have "\<not> i' < length argv'"
      by (metis drop_eq_Nil not_le)
    with False show ?thesis by (simp add: parse_loop_end)
  next
    case True
    note i = this
    from less.prems have len: "length argv - i = length argv' - i'"
      by (metis length_drop)
    with i have i': "i' < length argv'" by simp
    have tok: "argv ! i = argv' ! i'"
      using less.prems i i' by (metis Cons_nth_drop_Suc list.inject)
    have lastq: "(i = length argv - 1) = (i' = length argv' - 1)"
      using len i i' by auto
    have nxt: "argv ! (i + 1) = argv' ! (i' + 1)" if "i \<noteq> length argv - 1"
    proof -
      from that i have a: "Suc i < length argv" by simp
      with len have b: "Suc i' < length argv'" by simp
      have "drop (Suc i) argv = drop (Suc i') argv'"
        using less.prems i i' by (metis Cons_nth_drop_Suc list.inject)
      with a b show ?thesis by (metis Cons_nth_drop_Suc list.inject Suc_eq_plus1)
    qed
    have cont: "parse_loop flags argv (i + d + 1) s1 = parse_loop flags argv' (i' + d + 1) s1"
      for d s1
    proof (rule less.hyps)
      show "length argv - (i + d + 1) < length argv - i" using i by simp
      have "drop (i + d + 1) argv = drop (d + 1) (drop i argv)" by (simp add: add.commute)
      also have "\<dots> = drop (d + 1) (drop i' argv')" using less.prems by simp
      also have "\<dots> = drop (i' + d + 1) argv'" by (simp add: add.commute)
      finally show "drop (i + d + 1) argv = drop (i' + d + 1) argv'" .
    qed
    have after: "and_then (reindex i i' r) (\<lambda>r s'. parse_loop flags argv' (r + 1) s') =
                 and_then r (\<lambda>r s'. parse_loop flags argv (r + 1) s')"
      if "\<And>x s1. r = Return x s1 \<Longrightarrow> i \<le> x" for r
    proof (cases r)
      case (Return x s1)
      with that have "i \<le> x" by simp
      then obtain d where d: "x = i + d" using le_Suc_ex by blast
      show ?thesis using cont [of d s1] Return d by (simp add: ac_simps)
    next
      case (Exit n s1)
      then show ?thesis by simp
    qed
    show ?thesis
    proof (cases "3 \<le> length (argv ! i) \<and> starts_with (argv ! i) ''--''")
      case True
      then have t: "3 \<le> length (argv ! i)" "starts_with (argv ! i) ''--''" by simp_all
      from t tok have t': "3 \<le> length (argv' ! i')" "starts_with (argv' ! i') ''--''"
        by simp_all
      have ls: "long_option flags argv' i' s = reindex i i' (long_option flags argv i s)"
        by (rule long_option_shift [OF assms(1) tok lastq]) (rule nxt)
      show ?thesis
        unfolding parse_loop_long [OF i t] parse_loop_long [OF i' t'] ls
        by (rule after [symmetric]) (rule long_option_index)
    next
      case False
      note nl = this
      show ?thesis
      proof (cases "2 \<le> length (argv ! i) \<and> starts_with (argv ! i) ''-''")
        case True
        then have t: "2 \<le> length (argv ! i)" "starts_with (argv ! i) ''-''" by simp_all
        from nl tok have nl': "\<not> (3 \<le> length (argv' ! i') \<and> starts_with (argv' ! i') ''--'')"
          by simp
        from t tok have t': "2 \<le> length (argv' ! i')" "starts_with (argv' ! i') ''-''"
          by simp_all
        have ss: "short_loop flags argv' (drop 1 (argv' ! i')) i' 0 s =
                    reindex i i' (short_loop flags argv (drop 1 (argv ! i)) i 0 s)"
          unfolding tok by (rule short_loop_shift [OF assms(1) lastq]) (rule nxt)
        show ?thesis
          unfolding parse_loop_short [OF i nl t] parse_loop_short [OF i' nl' t'] ss
          by (rule after [symmetric]) (rule short_loop_index)
      next
        case False
        from nl tok have nl': "\<not> (3 \<le> length (argv' ! i') \<and> starts_with (argv' ! i') ''--'')"
          by simp
        from False tok
        have ns': "\<not> (2 \<le> length (argv' ! i') \<and> starts_with (argv' ! i') ''-'')" by simp
        show ?thesis
          unfolding parse_loop_skip [OF i nl False] parse_loop_skip [OF i' nl' ns']
          using cont [of 0 s] by simp
      qed
    qed
  qed
qed

section \<open>The help page of the source and of the specification\<close>

lemma help_lhs_spec: "help_lhs f = spec_lhs f"
  by (simp add: help_lhs_def spec_lhs_def)

lemma help_entry_spec: "help_entry f = spec_entry f"
  by (simp add: help_entry_def spec_entry_def help_lhs_spec lhs_max_def Let_def)

lemma help_entry_eq: "help_entry = spec_entry"
  by (rule ext) (rule help_entry_spec)

lemma print_help_page_fold:
  "foldl (\<lambda>w' f. w'\<lparr>cout := cout w' @ help_entry f\<rparr>) w flags =
     w\<lparr>cout := cout w @ concat (map help_entry flags)\<rparr>"
  by (induction flags arbitrary: w) simp_all

section \<open>Evaluation on the example programs\<close>

lemma example_flags_list:
  "example_flags =
     [Flag_short_long CHR ''f'' ''flag'' ''Set flag''
        (Fn0 (\<lambda>w. Return () (w\<lparr>user := (user w)\<lparr>main_flag := True\<rparr>\<rparr>))),
      Flag_long_arg ''filename'' ''Specify filename''
        (Fn1 (\<lambda>optarg w. Return () (w\<lparr>user := (user w)\<lparr>main_filename := optarg\<rparr>\<rparr>))),
      Flag_short_arg CHR ''p'' ''Print something''
        (Fn1 (\<lambda>optarg w. Return () (w\<lparr>cout := cout w @ optarg @ [newline]\<rparr>))),
      Flag_short_long CHR ''h'' ''help'' ''Print help'' (HelpFn ''example [args]'')]"
  by (simp add: example_flags_def add_help_def add_def)

lemma example2_flags_list:
  "example2_flags =
     [Flag_short_long CHR ''a'' ''ay'' ''A option''
        (Fn0 (\<lambda>w. Return ()
           (w\<lparr>user := (user w)\<lparr>a_flag := True\<rparr>, cout := cout w @ ''a'' @ [newline]\<rparr>))),
      Flag_long ''bee'' ''B option''
        (Fn0 (\<lambda>w. Return () (w\<lparr>cout := cout w @ ''b'' @ [newline]\<rparr>))),
      Flag_short CHR ''c'' ''C option''
        (Fn0 (\<lambda>w. Return () (w\<lparr>cout := cout w @ ''c'' @ [newline]\<rparr>))),
      Flag_short_long_arg CHR ''d'' ''dee'' ''D option''
        (Fn1 (\<lambda>optarg w. Return () (w\<lparr>cout := cout w @ ''d: '' @ optarg @ [newline]\<rparr>))),
      Flag_long_arg ''ee'' ''E option''
        (Fn1 (\<lambda>optarg w. Return () (w\<lparr>cout := cout w @ ''e: '' @ optarg @ [newline]\<rparr>))),
      Flag_short_arg CHR ''f'' ''F option''
        (Fn1 (\<lambda>optarg w. Return () (w\<lparr>cout := cout w @ ''f: '' @ optarg @ [newline]\<rparr>))),
      Flag_short_long CHR ''h'' ''help'' ''Print help'' (HelpFn ''example [-abc] [-def ARG]'')]"
  by (simp add: example2_flags_def add_help_def add_def)

lemmas flag_ctor_defs =
  Flag_short_long_arg_def Flag_long_arg_def Flag_short_arg_def
  Flag_short_long_def Flag_long_def Flag_short_def NUL_def

text \<open>Evaluation of the model on the example registry.\<close>

lemmas run_simps =
  parse_def parse_loop.simps short_loop.simps long_option_def example_flags_list
  flag_ctor_defs starts_with_def substr_def find_chr_def contains_chr_def Let_def
  main_start_def

lemmas run2_simps =
  parse_def parse_loop.simps short_loop.simps long_option_def example2_flags_list
  flag_ctor_defs starts_with_def substr_def find_chr_def contains_chr_def Let_def
  main2_start_def

section \<open>The claims\<close>

text \<open>C1 (amended): with the loop at an option that expects a value, and for a value
  that is not empty, the attached form and the detached form run alike: the
  long-option token \<^verbatim>\<open>--name=value\<close> and the two tokens \<^verbatim>\<open>--name value\<close> both call the
  callback of the flag \<^verbatim>\<open>name\<close> resolves to with \<^verbatim>\<open>value\<close> and go on with the
  tokens that follow; so do the short-option token \<^verbatim>\<open>-xVALUE\<close> and the two tokens
  \<^verbatim>\<open>-x VALUE\<close> for the flag \<^verbatim>\<open>x\<close> resolves to. Here \<^verbatim>\<open>name\<close> is the identifier, the
  text before the first \<^verbatim>\<open>=\<close>, and \<^verbatim>\<open>x\<close> is not a dash. With the empty value the
  two forms differ: the attached form has no value and the run exits with status 1,
  the detached form calls the callback with the empty string.\<close>

theorem attached_and_detached_forms_agree:
  "(pre \<noteq> [] \<and> name \<noteq> [] \<and> CHR ''='' \<notin> set name \<and> v \<noteq> []
      \<and> find_if (\<lambda>f. long_name f = name) flags = Some k \<and> expects_value (flags ! k) \<longrightarrow>
    parse_loop flags (pre @ [''--'' @ name @ ''='' @ v] @ post) (length pre) s =
      and_then (invoke flags k v s)
        (\<lambda>_ s'. parse_loop flags (pre @ [''--'' @ name @ ''='' @ v] @ post) (length pre + 1) s')
    \<and> parse_loop flags (pre @ [''--'' @ name, v] @ post) (length pre) s =
      and_then (invoke flags k v s)
        (\<lambda>_ s'. parse_loop flags (pre @ [''--'' @ name, v] @ post) (length pre + 2) s')
    \<and> parse_loop flags (pre @ [''--'' @ name @ ''='' @ v] @ post) (length pre) s =
      parse_loop flags (pre @ [''--'' @ name, v] @ post) (length pre) s)
   \<and> (pre \<noteq> [] \<and> x \<noteq> CHR ''-'' \<and> v \<noteq> []
      \<and> find_if (\<lambda>f. short_name f = x) flags = Some k \<and> expects_value (flags ! k) \<longrightarrow>
    parse_loop flags (pre @ [''-'' @ [x] @ v] @ post) (length pre) s =
      and_then (invoke flags k v s)
        (\<lambda>_ s'. parse_loop flags (pre @ [''-'' @ [x] @ v] @ post) (length pre + 1) s')
    \<and> parse_loop flags (pre @ [''-'' @ [x], v] @ post) (length pre) s =
      and_then (invoke flags k v s)
        (\<lambda>_ s'. parse_loop flags (pre @ [''-'' @ [x], v] @ post) (length pre + 2) s')
    \<and> parse_loop flags (pre @ [''-'' @ [x] @ v] @ post) (length pre) s =
      parse_loop flags (pre @ [''-'' @ [x], v] @ post) (length pre) s)"
proof (intro conjI impI; elim conjE)
  let ?A = "pre @ [''--'' @ name @ ''='' @ v] @ post"
  let ?D = "pre @ [''--'' @ name, v] @ post"
  assume pre: "pre \<noteq> []" and ne: "name \<noteq> []" and eq: "CHR ''='' \<notin> set name"
    and v: "v \<noteq> []" and k: "find_if (\<lambda>f. long_name f = name) flags = Some k"
    and ev: "expects_value (flags ! k)"
  have iA: "length pre < length ?A" and iD: "length pre < length ?D"
    and mD: "Suc (length pre) < length ?D" by simp_all
  have tA: "?A ! length pre = ''--'' @ name @ CHR ''='' # v"
    and tD: "?D ! length pre = ''--'' @ name" and vD: "?D ! (length pre + 1) = v"
    by (simp_all add: nth_append)
  have A3: "3 \<le> length (?A ! length pre)" "starts_with (?A ! length pre) ''--''"
    unfolding tA by simp_all
  have D3: "3 \<le> length (?D ! length pre)" "starts_with (?D ! length pre) ''--''"
    unfolding tD using ne by (cases name; simp)+
  show A: "parse_loop flags ?A (length pre) s =
      and_then (invoke flags k v s) (\<lambda>_ s'. parse_loop flags ?A (length pre + 1) s')"
    unfolding parse_loop_long [OF iA A3] long_option_attached [OF tA eq k ev v]
    by (simp add: and_then_assoc)
  show D: "parse_loop flags ?D (length pre) s =
      and_then (invoke flags k v s) (\<lambda>_ s'. parse_loop flags ?D (length pre + 2) s')"
    unfolding parse_loop_long [OF iD D3] long_option_detached [OF tD eq k ev mD] vD
    by (simp add: and_then_assoc)
  have "parse_loop flags ?A (length pre + 1) s' = parse_loop flags ?D (length pre + 2) s'"
    for s'
    using pre by (intro parse_loop_shift) (simp_all add: nth_append)
  then have c: "parse_loop flags ?A (length pre + 1) = parse_loop flags ?D (length pre + 2)"
    by (rule ext)
  show "parse_loop flags ?A (length pre) s = parse_loop flags ?D (length pre) s"
    by (simp only: A D c)
next
  let ?A = "pre @ [''-'' @ [x] @ v] @ post"
  let ?D = "pre @ [''-'' @ [x], v] @ post"
  assume pre: "pre \<noteq> []" and x: "x \<noteq> CHR ''-''" and v: "v \<noteq> []"
    and k: "find_if (\<lambda>f. short_name f = x) flags = Some k"
    and ev: "expects_value (flags ! k)"
  have iA: "length pre < length ?A" and iD: "length pre < length ?D"
    and mD: "Suc (length pre) < length ?D" by simp_all
  have tA: "?A ! length pre = ''-'' @ [] @ [x] @ v"
    and tD: "?D ! length pre = ''-'' @ [] @ [x]" and vD: "?D ! (length pre + 1) = v"
    by (simp_all add: nth_append)
  have nA: "\<not> (3 \<le> length (?A ! length pre) \<and> starts_with (?A ! length pre) ''--'')"
    and nD: "\<not> (3 \<le> length (?D ! length pre) \<and> starts_with (?D ! length pre) ''--'')"
    using x by (simp_all add: nth_append starts_with_def)
  have none: "\<forall>c\<in>set []. novalue_short flags c" by simp
  show A: "parse_loop flags ?A (length pre) s =
      and_then (invoke flags k v s) (\<lambda>_ s'. parse_loop flags ?A (length pre + 1) s')"
    unfolding parse_loop_short_attached [OF iA tA v nA none k ev] by simp
  show D: "parse_loop flags ?D (length pre) s =
      and_then (invoke flags k v s) (\<lambda>_ s'. parse_loop flags ?D (length pre + 2) s')"
    unfolding parse_loop_short_detached [OF iD tD nD none k ev mD] vD by simp
  have "parse_loop flags ?A (length pre + 1) s' = parse_loop flags ?D (length pre + 2) s'"
    for s'
    using pre by (intro parse_loop_shift) (simp_all add: nth_append)
  then have c: "parse_loop flags ?A (length pre + 1) = parse_loop flags ?D (length pre + 2)"
    by (rule ext)
  show "parse_loop flags ?A (length pre) s = parse_loop flags ?D (length pre) s"
    by (simp only: A D c)
qed

theorem attached_and_detached_forms_agree_witness:
  "find_if (\<lambda>f. long_name f = ''dee'') example2_flags = Some 3
   \<and> find_if (\<lambda>f. short_name f = CHR ''d'') example2_flags = Some 3
   \<and> expects_value (example2_flags ! 3)
   \<and> parse example2_flags [''example2'', ''--dee=x=1'', ''-a''] main2_start =
       Return () ([(3, ''x=1''), (0, [])],
         \<lparr>cout = ''d: x=1'' @ [newline] @ ''a'' @ [newline], cerr = [],
          user = \<lparr>a_flag = True\<rparr>\<rparr>)
   \<and> parse example2_flags [''example2'', ''--dee'', ''x=1'', ''-a''] main2_start =
       Return () ([(3, ''x=1''), (0, [])],
         \<lparr>cout = ''d: x=1'' @ [newline] @ ''a'' @ [newline], cerr = [],
          user = \<lparr>a_flag = True\<rparr>\<rparr>)
   \<and> parse example2_flags [''example2'', ''-dx=1'', ''-a''] main2_start =
       Return () ([(3, ''x=1''), (0, [])],
         \<lparr>cout = ''d: x=1'' @ [newline] @ ''a'' @ [newline], cerr = [],
          user = \<lparr>a_flag = True\<rparr>\<rparr>)
   \<and> parse example2_flags [''example2'', ''-d'', ''x=1'', ''-a''] main2_start =
       Return () ([(3, ''x=1''), (0, [])],
         \<lparr>cout = ''d: x=1'' @ [newline] @ ''a'' @ [newline], cerr = [],
          user = \<lparr>a_flag = True\<rparr>\<rparr>)"
  using attached_and_detached_forms_agree
          [of "[''example2'']" "''dee''" "''x=1''" example2_flags 3 "[''-a'']"
              "([], main2_start)" "CHR ''d''"]
  by (simp add: run2_simps)

theorem empty_value_forms_differ_counterexample:
  "find_if (\<lambda>f. long_name f = ''filename'') example_flags = Some 1
   \<and> expects_value (example_flags ! 1)
   \<and> parse example_flags [''example'', ''--filename'' @ ''='' @ []] main_start =
       Exit 1 ([], main_start\<lparr>cerr := ''example: option '--filename'' @ [CHR 0x27]
                                         @ '' requires an argument'' @ [newline]\<rparr>)
   \<and> parse example_flags [''example'', ''--filename'', []] main_start =
       Return () ([(1, [])], main_start)
   \<and> find_if (\<lambda>f. short_name f = CHR ''p'') example_flags = Some 2
   \<and> expects_value (example_flags ! 2)
   \<and> parse example_flags [''example'', ''-p'' @ []] main_start =
       Exit 1 ([], main_start\<lparr>cerr := ''example: option '-p'' @ [CHR 0x27]
                                         @ '' requires an argument'' @ [newline]\<rparr>)
   \<and> parse example_flags [''example'', ''-p'', []] main_start =
       Return () ([(2, [])], main_start\<lparr>cout := [newline]\<rparr>)"
  by (simp add: run_simps)

text \<open>C2: a short-option token all of whose characters resolve to no-value flags runs
  as the calls of those flags' callbacks, one for each character from left to right,
  each with the empty argument, and then the loop goes on at the next token. When
  the callbacks return, the log grows by exactly one entry for each character, in
  order; distinct characters are distinct flags, so each is called exactly once.\<close>

theorem combined_novalue_flags_fire_in_order:
  assumes "i < length argv" and "argv ! i = ''-'' @ cs" and "cs \<noteq> []"
    and "\<not> (3 \<le> length (argv ! i) \<and> starts_with (argv ! i) ''--'')"
    and "\<forall>c\<in>set cs. novalue_short flags c"
  shows "parse_loop flags argv i (tr, w) =
           and_then (fire_each flags cs (tr, w)) (\<lambda>_ s'. parse_loop flags argv (i + 1) s')
         \<and> ((\<forall>c\<in>set cs. returns flags (short_index flags c)) \<longrightarrow>
              (\<exists>w'. parse_loop flags argv i (tr, w) =
                      parse_loop flags argv (i + 1)
                        (tr @ map (\<lambda>c. (short_index flags c, [])) cs, w')))
         \<and> (distinct cs \<longrightarrow> distinct (map (short_index flags) cs))"
proof (intro conjI)
  have "parse_loop flags argv i (tr, w) =
          and_then (fire_each flags cs (tr, w))
            (\<lambda>_ s1. and_then (short_loop flags argv (cs @ []) i (length cs) s1)
              (\<lambda>i' s'. parse_loop flags argv (i' + 1) s'))"
    using assms by (intro parse_loop_short_run) simp_all
  then show run: "parse_loop flags argv i (tr, w) =
           and_then (fire_each flags cs (tr, w)) (\<lambda>_ s'. parse_loop flags argv (i + 1) s')"
    by (simp add: short_loop_done)
  show "(\<forall>c\<in>set cs. returns flags (short_index flags c)) \<longrightarrow>
           (\<exists>w'. parse_loop flags argv i (tr, w) =
                   parse_loop flags argv (i + 1)
                     (tr @ map (\<lambda>c. (short_index flags c, [])) cs, w'))"
  proof
    assume "\<forall>c\<in>set cs. returns flags (short_index flags c)"
    from fire_each_log [OF this, of tr w] obtain w' where
      "fire_each flags cs (tr, w) =
         Return () (tr @ map (\<lambda>c. (short_index flags c, [])) cs, w')" by blast
    with run show "\<exists>w'. parse_loop flags argv i (tr, w) =
                   parse_loop flags argv (i + 1)
                     (tr @ map (\<lambda>c. (short_index flags c, [])) cs, w')"
      by auto
  qed
  show "distinct cs \<longrightarrow> distinct (map (short_index flags) cs)"
  proof
    assume "distinct cs"
    moreover have "inj_on (short_index flags) (set cs)"
      using assms(5) by (auto intro!: inj_onI short_index_inj)
    ultimately show "distinct (map (short_index flags) cs)"
      by (simp add: distinct_map)
  qed
qed

theorem combined_novalue_flags_fire_in_order_witness:
  "1 < length [''example2'', ''-ac'']
   \<and> [''example2'', ''-ac''] ! 1 = ''-'' @ ''ac''
   \<and> list_all (novalue_short example2_flags) ''ac''
   \<and> list_all (\<lambda>c. returns example2_flags (short_index example2_flags c)) ''ac''
   \<and> distinct ''ac''
   \<and> map (short_index example2_flags) ''ac'' = [0, 2]
   \<and> parse example2_flags [''example2'', ''-ac''] main2_start =
       Return () ([(0, []), (2, [])],
         \<lparr>cout = ''a'' @ [newline] @ ''c'' @ [newline], cerr = [],
          user = \<lparr>a_flag = True\<rparr>\<rparr>)"
  using combined_novalue_flags_fire_in_order
          [of 1 "[''example2'', ''-ac'']" "''ac''" example2_flags "[]" main2_start]
  by (simp add: parse_def example2_flags_list flag_ctor_defs main2_start_def parse_loop_end
        novalue_short_def short_index_def starts_with_def returns_def)

text \<open>C3: a value-expecting option in detached form (a long-option token without
  \<^verbatim>\<open>=\<close>, or a short-option token whose last character is the option, after any
  no-value flags) passes the whole next token \<open>argv ! (i + 1)\<close> to the callback as
  it stands, and the loop goes on at index \<open>i + 2\<close>, so the token taken is not
  itself parsed. When the option token is the last one, the run prints that the
  option requires an argument and exits with status 1.\<close>

theorem detached_value_is_next_token:
  assumes "i < length argv" and "expects_value (flags ! k)"
  shows "(argv ! i = ''--'' @ name \<and> name \<noteq> [] \<and> CHR ''='' \<notin> set name
            \<and> find_if (\<lambda>f. long_name f = name) flags = Some k \<longrightarrow>
          (Suc i < length argv \<longrightarrow>
             parse_loop flags argv i s =
               and_then (invoke flags k (argv ! (i + 1)) s)
                 (\<lambda>_ s'. parse_loop flags argv (i + 2) s'))
          \<and> (Suc i = length argv \<longrightarrow>
             parse_loop flags argv i s =
               error_exit (argv ! 0 @ '': option '--'' @ name @ [CHR 0x27]
                            @ '' requires an argument'' @ [newline]) s))
       \<and> (argv ! i = ''-'' @ pre @ [c]
            \<and> \<not> (3 \<le> length (argv ! i) \<and> starts_with (argv ! i) ''--'')
            \<and> (\<forall>x\<in>set pre. novalue_short flags x)
            \<and> find_if (\<lambda>f. short_name f = c) flags = Some k \<longrightarrow>
          (Suc i < length argv \<longrightarrow>
             parse_loop flags argv i s =
               and_then (fire_each flags pre s)
                 (\<lambda>_ s1. and_then (invoke flags k (argv ! (i + 1)) s1)
                   (\<lambda>_ s2. parse_loop flags argv (i + 2) s2)))
          \<and> (Suc i = length argv \<longrightarrow>
             parse_loop flags argv i s =
               and_then (fire_each flags pre s)
                 (\<lambda>_ s1. error_exit (argv ! 0 @ '': option '-'' @ [c] @ [CHR 0x27]
                                      @ '' requires an argument'' @ [newline]) s1)))"
proof (intro conjI impI; (elim conjE)?)
  assume tok: "argv ! i = ''--'' @ name" and ne: "name \<noteq> []"
    and eq: "CHR ''='' \<notin> set name"
    and k: "find_if (\<lambda>f. long_name f = name) flags = Some k"
  have "3 \<le> length (argv ! i)" using tok ne by (cases name) simp_all
  moreover have "starts_with (argv ! i) ''--''" using tok by simp
  ultimately have step: "parse_loop flags argv i s =
      and_then (long_option flags argv i s) (\<lambda>i' s'. parse_loop flags argv (i' + 1) s')"
    using assms(1) by (intro parse_loop_long)
  {
    assume more: "Suc i < length argv"
    from long_option_detached [OF tok eq k assms(2) more]
    show "parse_loop flags argv i s =
            and_then (invoke flags k (argv ! (i + 1)) s)
              (\<lambda>_ s'. parse_loop flags argv (i + 2) s')"
      unfolding step by (simp add: and_then_assoc)
  }
  {
    assume last: "Suc i = length argv"
    obtain tr w where s: "s = (tr, w)" by (cases s)
    from long_option_detached_missing [OF tok eq k assms(2) last, of tr w]
    show "parse_loop flags argv i s =
            error_exit (argv ! 0 @ '': option '--'' @ name @ [CHR 0x27]
                         @ '' requires an argument'' @ [newline]) s"
      unfolding step unfolding s by simp
  }
next
  assume tok: "argv ! i = ''-'' @ pre @ [c]"
    and nl: "\<not> (3 \<le> length (argv ! i) \<and> starts_with (argv ! i) ''--'')"
    and pre: "\<forall>x\<in>set pre. novalue_short flags x"
    and k: "find_if (\<lambda>f. short_name f = c) flags = Some k"
  {
    assume "Suc i < length argv"
    with assms(1) tok nl pre k assms(2)
    show "parse_loop flags argv i s =
            and_then (fire_each flags pre s)
              (\<lambda>_ s1. and_then (invoke flags k (argv ! (i + 1)) s1)
                (\<lambda>_ s2. parse_loop flags argv (i + 2) s2))"
      by (rule parse_loop_short_detached)
  }
  {
    assume "Suc i = length argv"
    with assms(1) tok nl pre k assms(2)
    show "parse_loop flags argv i s =
            and_then (fire_each flags pre s)
              (\<lambda>_ s1. error_exit (argv ! 0 @ '': option '-'' @ [c] @ [CHR 0x27]
                                   @ '' requires an argument'' @ [newline]) s1)"
      by (rule parse_loop_short_missing)
  }
qed

theorem detached_value_is_next_token_witness:
  "1 < length [''example'', ''--filename'', ''--flag'']
   \<and> expects_value (example_flags ! 1)
   \<and> find_if (\<lambda>f. long_name f = ''filename'') example_flags = Some 1
   \<and> parse example_flags [''example'', ''--filename'', ''--flag''] main_start =
       Return () ([(1, ''--flag'')],
         main_start\<lparr>user := \<lparr>main_flag = False, main_filename = ''--flag''\<rparr>\<rparr>)
   \<and> parse example_flags [''example'', ''--filename''] main_start =
       Exit 1 ([], main_start\<lparr>cerr := ''example: option '--filename'' @ [CHR 0x27]
                                         @ '' requires an argument'' @ [newline]\<rparr>)
   \<and> expects_value (example_flags ! 2)
   \<and> list_all (novalue_short example_flags) ''f''
   \<and> find_if (\<lambda>f. short_name f = CHR ''p'') example_flags = Some 2
   \<and> parse example_flags [''example'', ''-fp'', ''-f''] main_start =
       Return () ([(0, []), (2, ''-f'')],
         \<lparr>cout = ''-f'' @ [newline], cerr = [],
          user = \<lparr>main_flag = True, main_filename = []\<rparr>\<rparr>)
   \<and> parse example_flags [''example'', ''-fp''] main_start =
       Exit 1 ([(0, [])],
         \<lparr>cout = [], cerr = ''example: option '-p'' @ [CHR 0x27]
                                 @ '' requires an argument'' @ [newline],
          user = \<lparr>main_flag = True, main_filename = []\<rparr>\<rparr>)"
  using detached_value_is_next_token
          [of 1 "[''example'', ''--filename'', ''--flag'']" example_flags 1 "''filename''"
              "([], main_start)" "[]" "CHR ''x''"]
        detached_value_is_next_token
          [of 1 "[''example'', ''--filename'']" example_flags 1 "''filename''"
              "([], main_start)" "[]" "CHR ''x''"]
        detached_value_is_next_token
          [of 1 "[''example'', ''-fp'', ''-f'']" example_flags 2 "[]"
              "([], main_start)" "''f''" "CHR ''p''"]
        detached_value_is_next_token
          [of 1 "[''example'', ''-fp'']" example_flags 2 "[]"
              "([], main_start)" "''f''" "CHR ''p''"]
  by (simp add: parse_def example_flags_list flag_ctor_defs main_start_def parse_loop_end
        novalue_short_def short_index_def starts_with_def)

text \<open>C4: for a long-option token with an \<^verbatim>\<open>=\<close> whose identifier resolves to a flag that
  expects a value, an empty text after the first \<^verbatim>\<open>=\<close> prints
  \<^verbatim>\<open><prog>: option '--name' requires an argument\<close> and exits with status 1 without any
  call; a non-empty text after the first \<^verbatim>\<open>=\<close> is passed to the callback, and the loop
  goes on at the next token.\<close>

theorem long_option_attached_value:
  assumes "i < length argv" and "argv ! i = ''--'' @ name @ ''='' @ v"
    and "CHR ''='' \<notin> set name"
    and "find_if (\<lambda>f. long_name f = name) flags = Some k"
    and "expects_value (flags ! k)"
  shows "parse_loop flags argv i (tr, w) =
           (if v = [] then
              Exit 1 (tr, w\<lparr>cerr := cerr w @ argv ! 0 @ '': option '--'' @ name
                                    @ [CHR 0x27] @ '' requires an argument'' @ [newline]\<rparr>)
            else and_then (invoke flags k v (tr, w)) (\<lambda>_ s'. parse_loop flags argv (i + 1) s'))"
proof -
  have tok: "3 \<le> length (argv ! i)" "starts_with (argv ! i) ''--''"
    using assms(2) by simp_all
  note step = parse_loop_long [OF assms(1) tok, of flags "(tr, w)"]
  show ?thesis
  proof (cases "v = []")
    case True
    with assms(2) have "argv ! i = ''--'' @ name @ ''=''" by simp
    from long_option_attached_empty [OF this assms(3,4,5)] True show ?thesis
      unfolding step by simp
  next
    case False
    from assms(2) have "argv ! i = ''--'' @ name @ CHR ''='' # v" by simp
    from long_option_attached [OF this assms(3,4,5) False] False show ?thesis
      unfolding step by (simp add: and_then_assoc)
  qed
qed

theorem long_option_attached_value_witness:
  "1 < length [''example'', ''--filename='']
   \<and> [''example'', ''--filename=''] ! 1 = ''--'' @ ''filename'' @ ''='' @ []
   \<and> 1 < length [''example'', ''--filename=a=b'']
   \<and> [''example'', ''--filename=a=b''] ! 1 = ''--'' @ ''filename'' @ ''='' @ ''a=b''
   \<and> CHR ''='' \<notin> set ''filename''
   \<and> find_if (\<lambda>f. long_name f = ''filename'') example_flags = Some 1
   \<and> expects_value (example_flags ! 1)
   \<and> parse example_flags [''example'', ''--filename=''] main_start =
       Exit 1 ([], main_start\<lparr>cerr := ''example: option '--filename'' @ [CHR 0x27]
                                         @ '' requires an argument'' @ [newline]\<rparr>)
   \<and> parse example_flags [''example'', ''--filename=a=b''] main_start =
       Return () ([(1, ''a=b'')], main_start\<lparr>user := \<lparr>main_flag = False, main_filename = ''a=b''\<rparr>\<rparr>)"
  using long_option_attached_value
          [of 1 "[''example'', ''--filename='']" "''filename''" "[]" example_flags 1 "[]" main_start]
        long_option_attached_value
          [of 1 "[''example'', ''--filename=a=b'']" "''filename''" "''a=b''" example_flags 1 "[]"
              main_start]
  by (simp add: parse_def example_flags_list flag_ctor_defs main_start_def parse_loop_end)

text \<open>C5 (amended): an unregistered long identifier prints
  \<^verbatim>\<open><prog>: unknown option: '--name'\<close> and exits with status 1 with no call for that
  token. An unregistered short character, reached after no-value flags of the same
  token, prints \<^verbatim>\<open><prog>: unknown option: '-c'\<close> and exits with status 1: the flags
  before it have been called, the character itself and the text after it cause no
  call. The three places that miss an argument print
  \<^verbatim>\<open><prog>: option '--name' requires an argument\<close> or
  \<^verbatim>\<open><prog>: option '-c' requires an argument\<close> and exit with status 1.\<close>

theorem diagnostics_and_exit_status:
  assumes "i < length argv"
  shows "(3 \<le> length (argv ! i) \<and> starts_with (argv ! i) ''--''
            \<and> find_if (\<lambda>f. long_name f = long_ident (argv ! i)) flags = None \<longrightarrow>
          parse_loop flags argv i (tr, w) =
            Exit 1 (tr, w\<lparr>cerr := cerr w @ argv ! 0 @ '': unknown option: '--''
                                  @ long_ident (argv ! i) @ [CHR 0x27, newline]\<rparr>))
       \<and> (argv ! i = ''-'' @ pre @ [c] @ rest
            \<and> \<not> (3 \<le> length (argv ! i) \<and> starts_with (argv ! i) ''--'')
            \<and> (\<forall>x\<in>set pre. novalue_short flags x)
            \<and> find_if (\<lambda>f. short_name f = c) flags = None \<longrightarrow>
          parse_loop flags argv i (tr, w) =
            and_then (fire_each flags pre (tr, w))
              (\<lambda>_ (tr', w'). Exit 1 (tr', w'\<lparr>cerr := cerr w' @ argv ! 0
                                  @ '': unknown option: '-'' @ [c] @ [CHR 0x27, newline]\<rparr>)))
       \<and> (argv ! i = ''--'' @ name @ ''='' \<and> CHR ''='' \<notin> set name
            \<and> find_if (\<lambda>f. long_name f = name) flags = Some k \<and> expects_value (flags ! k) \<longrightarrow>
          parse_loop flags argv i (tr, w) =
            Exit 1 (tr, w\<lparr>cerr := cerr w @ argv ! 0 @ '': option '--'' @ name @ [CHR 0x27]
                                  @ '' requires an argument'' @ [newline]\<rparr>))
       \<and> (argv ! i = ''--'' @ name \<and> name \<noteq> [] \<and> CHR ''='' \<notin> set name
            \<and> find_if (\<lambda>f. long_name f = name) flags = Some k \<and> expects_value (flags ! k)
            \<and> Suc i = length argv \<longrightarrow>
          parse_loop flags argv i (tr, w) =
            Exit 1 (tr, w\<lparr>cerr := cerr w @ argv ! 0 @ '': option '--'' @ name @ [CHR 0x27]
                                  @ '' requires an argument'' @ [newline]\<rparr>))
       \<and> (argv ! i = ''-'' @ pre @ [c]
            \<and> \<not> (3 \<le> length (argv ! i) \<and> starts_with (argv ! i) ''--'')
            \<and> (\<forall>x\<in>set pre. novalue_short flags x)
            \<and> find_if (\<lambda>f. short_name f = c) flags = Some k \<and> expects_value (flags ! k)
            \<and> Suc i = length argv \<longrightarrow>
          parse_loop flags argv i (tr, w) =
            and_then (fire_each flags pre (tr, w))
              (\<lambda>_ (tr', w'). Exit 1 (tr', w'\<lparr>cerr := cerr w' @ argv ! 0 @ '': option '-''
                                  @ [c] @ [CHR 0x27] @ '' requires an argument''
                                  @ [newline]\<rparr>)))"
proof (intro conjI impI; elim conjE)
  assume tok: "3 \<le> length (argv ! i)" "starts_with (argv ! i) ''--''"
    and none: "find_if (\<lambda>f. long_name f = long_ident (argv ! i)) flags = None"
  show "parse_loop flags argv i (tr, w) =
          Exit 1 (tr, w\<lparr>cerr := cerr w @ argv ! 0 @ '': unknown option: '--''
                                @ long_ident (argv ! i) @ [CHR 0x27, newline]\<rparr>)"
    unfolding parse_loop_long [OF assms tok] long_option_unknown [OF tok(2) none] by simp
next
  assume "argv ! i = ''-'' @ pre @ [c] @ rest"
    and "\<not> (3 \<le> length (argv ! i) \<and> starts_with (argv ! i) ''--'')"
    and "\<forall>x\<in>set pre. novalue_short flags x"
    and "find_if (\<lambda>f. short_name f = c) flags = None"
  from parse_loop_short_unknown [OF assms this]
  show "parse_loop flags argv i (tr, w) =
          and_then (fire_each flags pre (tr, w))
            (\<lambda>_ (tr', w'). Exit 1 (tr', w'\<lparr>cerr := cerr w' @ argv ! 0
                                @ '': unknown option: '-'' @ [c] @ [CHR 0x27, newline]\<rparr>))"
    by (simp only: error_exit_eq)
next
  assume tok: "argv ! i = ''--'' @ name @ ''=''" and eq: "CHR ''='' \<notin> set name"
    and k: "find_if (\<lambda>f. long_name f = name) flags = Some k" and ev: "expects_value (flags ! k)"
  have t3: "3 \<le> length (argv ! i)" "starts_with (argv ! i) ''--''" using tok by simp_all
  show "parse_loop flags argv i (tr, w) =
          Exit 1 (tr, w\<lparr>cerr := cerr w @ argv ! 0 @ '': option '--'' @ name @ [CHR 0x27]
                                @ '' requires an argument'' @ [newline]\<rparr>)"
    unfolding parse_loop_long [OF assms t3] long_option_attached_empty [OF tok eq k ev] by simp
next
  assume tok: "argv ! i = ''--'' @ name" and ne: "name \<noteq> []" and eq: "CHR ''='' \<notin> set name"
    and k: "find_if (\<lambda>f. long_name f = name) flags = Some k" and ev: "expects_value (flags ! k)"
    and last: "Suc i = length argv"
  have t3: "3 \<le> length (argv ! i)" "starts_with (argv ! i) ''--''"
    using tok ne by (cases name; simp)+
  show "parse_loop flags argv i (tr, w) =
          Exit 1 (tr, w\<lparr>cerr := cerr w @ argv ! 0 @ '': option '--'' @ name @ [CHR 0x27]
                                @ '' requires an argument'' @ [newline]\<rparr>)"
    unfolding parse_loop_long [OF assms t3] long_option_detached_missing [OF tok eq k ev last]
    by simp
next
  assume "argv ! i = ''-'' @ pre @ [c]"
    and "\<not> (3 \<le> length (argv ! i) \<and> starts_with (argv ! i) ''--'')"
    and "\<forall>x\<in>set pre. novalue_short flags x"
    and "find_if (\<lambda>f. short_name f = c) flags = Some k" and "expects_value (flags ! k)"
    and "Suc i = length argv"
  from parse_loop_short_missing [OF assms this]
  show "parse_loop flags argv i (tr, w) =
          and_then (fire_each flags pre (tr, w))
            (\<lambda>_ (tr', w'). Exit 1 (tr', w'\<lparr>cerr := cerr w' @ argv ! 0 @ '': option '-''
                                @ [c] @ [CHR 0x27] @ '' requires an argument''
                                @ [newline]\<rparr>))"
    by (simp only: error_exit_eq)
qed

theorem diagnostics_and_exit_status_witness:
  "1 < length [''example'', ''--bogus=1'']
   \<and> find_if (\<lambda>f. long_name f = long_ident ''--bogus=1'') example_flags = None
   \<and> parse example_flags [''example'', ''--bogus=1''] main_start =
       Exit 1 ([], main_start\<lparr>cerr := ''example: unknown option: '--bogus''
                                         @ [CHR 0x27, newline]\<rparr>)
   \<and> list_all (novalue_short example_flags) ''f''
   \<and> find_if (\<lambda>f. short_name f = CHR ''x'') example_flags = None
   \<and> parse example_flags [''example'', ''-fxp''] main_start =
       Exit 1 ([(0, [])],
         \<lparr>cout = [], cerr = ''example: unknown option: '-x'' @ [CHR 0x27, newline],
          user = \<lparr>main_flag = True, main_filename = []\<rparr>\<rparr>)
   \<and> find_if (\<lambda>f. long_name f = ''filename'') example_flags = Some 1
   \<and> expects_value (example_flags ! 1)
   \<and> parse example_flags [''example'', ''--filename=''] main_start =
       Exit 1 ([], main_start\<lparr>cerr := ''example: option '--filename'' @ [CHR 0x27]
                                         @ '' requires an argument'' @ [newline]\<rparr>)
   \<and> parse example_flags [''example'', ''--filename''] main_start =
       Exit 1 ([], main_start\<lparr>cerr := ''example: option '--filename'' @ [CHR 0x27]
                                         @ '' requires an argument'' @ [newline]\<rparr>)
   \<and> find_if (\<lambda>f. short_name f = CHR ''p'') example_flags = Some 2
   \<and> expects_value (example_flags ! 2)
   \<and> parse example_flags [''example'', ''-fp''] main_start =
       Exit 1 ([(0, [])],
         \<lparr>cout = [], cerr = ''example: option '-p'' @ [CHR 0x27]
                                 @ '' requires an argument'' @ [newline],
          user = \<lparr>main_flag = True, main_filename = []\<rparr>\<rparr>)"
  using diagnostics_and_exit_status
          [of 1 "[''example'', ''--bogus=1'']" example_flags "[]" main_start]
        diagnostics_and_exit_status
          [of 1 "[''example'', ''-fxp'']" example_flags "[]" main_start
              "''f''" "CHR ''x''" "''p''"]
        diagnostics_and_exit_status
          [of 1 "[''example'', ''--filename='']" example_flags "[]" main_start
              _ _ _ "''filename''" 1]
        diagnostics_and_exit_status
          [of 1 "[''example'', ''--filename'']" example_flags "[]" main_start
              _ _ _ "''filename''" 1]
        diagnostics_and_exit_status
          [of 1 "[''example'', ''-fp'']" example_flags "[]" main_start
              "''f''" "CHR ''p''" _ _ 2]
  by (simp add: parse_def example_flags_list flag_ctor_defs main_start_def
        novalue_short_def short_index_def starts_with_def long_ident_def)

theorem callback_before_unknown_short_counterexample:
  "find_if (\<lambda>f. short_name f = CHR ''x'') example_flags = None
   \<and> parse example_flags [''example'', ''-fx''] main_start =
       Exit 1 ([(0, [])],
         \<lparr>cout = [], cerr = ''example: unknown option: '-x'' @ [CHR 0x27, newline],
          user = \<lparr>main_flag = True, main_filename = []\<rparr>\<rparr>)
   \<and> parse example_flags [''example'', ''-p''] main_start =
       Exit 1 ([], main_start\<lparr>cerr := ''example: option '-p'' @ [CHR 0x27]
                                         @ '' requires an argument'' @ [newline]\<rparr>)"
  by (simp add: run_simps)

text \<open>C6: in a short-option token, a value-expecting option that is not the last
  character (reached after no-value flags) is called with the rest of the token after
  it, and the loop goes on at the next token: the rest is not parsed as flags. With
  \<^verbatim>\<open>f\<close> a no-value flag and \<^verbatim>\<open>p\<close> a value-expecting one, the tokens
  \<^verbatim>\<open>-fp something\<close> run as the call of \<^verbatim>\<open>f\<close>'s callback with the empty argument
  followed by the call of \<^verbatim>\<open>p\<close>'s callback with \<^verbatim>\<open>something\<close>.\<close>

theorem attached_short_value_ends_token:
  "(i < length argv \<and> argv ! i = ''-'' @ pre @ [c] @ rest \<and> rest \<noteq> []
      \<and> \<not> (3 \<le> length (argv ! i) \<and> starts_with (argv ! i) ''--'')
      \<and> (\<forall>x\<in>set pre. novalue_short flags x)
      \<and> find_if (\<lambda>f. short_name f = c) flags = Some k \<and> expects_value (flags ! k) \<longrightarrow>
    parse_loop flags argv i s =
      and_then (fire_each flags pre s)
        (\<lambda>_ s1. and_then (invoke flags k rest s1)
          (\<lambda>_ s2. parse_loop flags argv (i + 1) s2)))
   \<and> (find_if (\<lambda>f. short_name f = CHR ''f'') flags = Some kf \<and> \<not> expects_value (flags ! kf)
      \<and> find_if (\<lambda>f. short_name f = CHR ''p'') flags = Some kp \<and> expects_value (flags ! kp) \<longrightarrow>
    parse flags [prog, ''-fp'', ''something''] w0 =
      and_then (invoke flags kf [] ([], w0)) (\<lambda>_ s1. invoke flags kp ''something'' s1))"
proof (intro conjI impI; elim conjE)
  assume "i < length argv" and "argv ! i = ''-'' @ pre @ [c] @ rest" and "rest \<noteq> []"
    and "\<not> (3 \<le> length (argv ! i) \<and> starts_with (argv ! i) ''--'')"
    and "\<forall>x\<in>set pre. novalue_short flags x"
    and "find_if (\<lambda>f. short_name f = c) flags = Some k" and "expects_value (flags ! k)"
  then show "parse_loop flags argv i s =
      and_then (fire_each flags pre s)
        (\<lambda>_ s1. and_then (invoke flags k rest s1)
          (\<lambda>_ s2. parse_loop flags argv (i + 1) s2))"
    by (rule parse_loop_short_attached)
next
  assume kf: "find_if (\<lambda>f. short_name f = CHR ''f'') flags = Some kf"
    and nv: "\<not> expects_value (flags ! kf)"
    and kp: "find_if (\<lambda>f. short_name f = CHR ''p'') flags = Some kp"
    and ev: "expects_value (flags ! kp)"
  let ?argv = "[prog, ''-fp'', ''something'']"
  have pre: "\<forall>x\<in>set ''f''. novalue_short flags x"
    using kf nv by (simp add: novalue_short_def)
  have idx: "short_index flags CHR ''f'' = kf" using kf by (simp add: short_index_def)
  have "parse_loop flags ?argv 1 ([], w0) =
          and_then (fire_each flags ''f'' ([], w0))
            (\<lambda>_ s1. and_then (invoke flags kp (?argv ! (1 + 1)) s1)
              (\<lambda>_ s2. parse_loop flags ?argv (1 + 2) s2))"
    using pre kp ev by (intro parse_loop_short_detached) (simp_all add: starts_with_def)
  also have "\<dots> = and_then (invoke flags kf [] ([], w0))
                      (\<lambda>_ s1. invoke flags kp ''something'' s1)"
    by (cases "invoke flags kf [] ([], w0)")
       (simp_all add: idx parse_loop_end and_then_Return)
  finally show "parse flags ?argv w0 =
      and_then (invoke flags kf [] ([], w0)) (\<lambda>_ s1. invoke flags kp ''something'' s1)"
    by (simp add: parse_def)
qed

theorem attached_short_value_ends_token_witness:
  "1 < length [''example'', ''-fpfh'', ''-f'']
   \<and> [''example'', ''-fpfh'', ''-f''] ! 1 = ''-'' @ ''f'' @ [CHR ''p''] @ ''fh''
   \<and> list_all (novalue_short example_flags) ''f''
   \<and> find_if (\<lambda>f. short_name f = CHR ''f'') example_flags = Some 0
   \<and> \<not> expects_value (example_flags ! 0)
   \<and> find_if (\<lambda>f. short_name f = CHR ''p'') example_flags = Some 2
   \<and> expects_value (example_flags ! 2)
   \<and> parse example_flags [''example'', ''-fpfh'', ''-f''] main_start =
       Return () ([(0, []), (2, ''fh''), (0, [])],
         \<lparr>cout = ''fh'' @ [newline], cerr = [],
          user = \<lparr>main_flag = True, main_filename = []\<rparr>\<rparr>)
   \<and> parse example_flags [''example'', ''-fp'', ''something''] main_start =
       Return () ([(0, []), (2, ''something'')],
         \<lparr>cout = ''something'' @ [newline], cerr = [],
          user = \<lparr>main_flag = True, main_filename = []\<rparr>\<rparr>)"
  using attached_short_value_ends_token
          [of 1 "[''example'', ''-fpfh'', ''-f'']" "''f''" "CHR ''p''" "''fh''" example_flags 2
              "([], main_start)" 0 2 "''example''" main_start]
  by (simp add: run_simps novalue_short_def short_index_def)

text \<open>C7 (amended): the help page is appended to the standard output and nothing else
  changes: the line \<^verbatim>\<open>Usage: <usage>\<close>, then for each flag, in registration order,
  its lines as \<open>spec_entry\<close> gives them. In the padded case the description starts in
  column 33 of the line; in the other case it starts in column 33 of the next line.\<close>

theorem help_page_layout:
  "print_help_page flags usage w =
     w\<lparr>cout := cout w @ ''Usage: '' @ usage @ [newline] @ concat (map spec_entry flags)\<rparr>
   \<and> spec_entry f =
       (if length (spec_lhs f) \<le> 32
        then spec_lhs f @ replicate (33 - length (spec_lhs f)) CHR '' ''
             @ description f @ [newline]
        else spec_lhs f @ [newline] @ replicate 33 CHR '' '' @ description f @ [newline])"
proof
  show "print_help_page flags usage w =
     w\<lparr>cout := cout w @ ''Usage: '' @ usage @ [newline] @ concat (map spec_entry flags)\<rparr>"
    unfolding print_help_page_def print_help_page_fold
    unfolding help_entry_eq by simp
next
  have pad: "replicate (32 - n) CHR '' '' @ '' '' = replicate (33 - n) CHR '' ''"
    if "n \<le> 32" for n :: nat
  proof -
    from that have "33 - n = Suc (32 - n)" by simp
    then show ?thesis by (simp add: replicate_append_same)
  qed
  have full: "replicate 32 CHR '' '' @ '' '' = replicate 33 CHR '' ''"
    using pad [of 0] by simp
  show "spec_entry f =
       (if length (spec_lhs f) \<le> 32
        then spec_lhs f @ replicate (33 - length (spec_lhs f)) CHR '' ''
             @ description f @ [newline]
        else spec_lhs f @ [newline] @ replicate 33 CHR '' '' @ description f @ [newline])"
  proof (cases "length (spec_lhs f) \<le> 32")
    case True
    from pad [OF True] True show ?thesis
      by (simp add: spec_entry_def del: replicate_Suc)
  next
    case False
    with full show ?thesis by (simp add: spec_entry_def)
  qed
qed

theorem help_page_claimed_counterexample:
  "length (spec_lhs wide_flag) = 41
   \<and> cout (print_help_page [wide_flag] ''x'' \<lparr>cout = [], cerr = [], user = ()\<rparr>) =
       ''Usage: x'' @ [newline]
       @ ''  --a-long-name-that-fills-the-column ARG'' @ [newline]
       @ replicate 33 CHR '' '' @ ''Wide'' @ [newline]
   \<and> cout (print_help_page [wide_flag] ''x'' \<lparr>cout = [], cerr = [], user = ()\<rparr>) \<noteq>
       ''Usage: x'' @ [newline] @ concat (map spec_entry_claimed [wide_flag])"
  by (simp add: print_help_page_def help_entry_def help_lhs_def lhs_max_def wide_flag_def
        flag_ctor_defs spec_entry_claimed_def spec_lhs_def Let_def newline_def
        numeral_eq_Suc)

text \<open>C8: a token that is neither a long-option token nor a short-option token is
  skipped: the loop goes on at the next token with the state unchanged, so nothing is
  printed, no callback runs and nothing is collected.\<close>

theorem other_token_ignored:
  assumes "i < length argv"
    and "\<not> (3 \<le> length (argv ! i) \<and> starts_with (argv ! i) ''--'')"
    and "\<not> (2 \<le> length (argv ! i) \<and> starts_with (argv ! i) ''-'')"
  shows "parse_loop flags argv i s = parse_loop flags argv (i + 1) s"
  using assms by (rule parse_loop_skip)

theorem other_token_ignored_witness:
  "1 < length [''example'', ''a.out'']
   \<and> \<not> (3 \<le> length ([''example'', ''a.out''] ! 1) \<and> starts_with ([''example'', ''a.out''] ! 1) ''--'')
   \<and> \<not> (2 \<le> length ([''example'', ''a.out''] ! 1) \<and> starts_with ([''example'', ''a.out''] ! 1) ''-'')
   \<and> parse example_flags [''example'', ''a.out''] main_start = Return () ([], main_start)"
  using other_token_ignored [of 1 "[''example'', ''a.out'']" example_flags "([], main_start)"]
  by (simp add: parse_def starts_with_def parse_loop_end)

text \<open>C9: a long-option token whose identifier is empty, \<^verbatim>\<open>--=v\<close>, is looked up with
  the empty string, so it resolves to the first flag whose stored long name is empty;
  the constructors without a long form store the empty long name. The flag found is
  called with \<open>v\<close> when it expects a value and \<open>v\<close> is not empty, and with the empty
  argument when it expects none; when it expects a value and \<open>v\<close> is empty the run
  prints \<^verbatim>\<open><prog>: option '--' requires an argument\<close> and exits with status 1.\<close>

theorem empty_long_identifier_dispatch:
  assumes "i < length argv" and "argv ! i = ''--='' @ v"
    and "k < length flags" and "long_name (flags ! k) = []"
    and "\<forall>j<k. long_name (flags ! j) \<noteq> []"
  shows "long_name (Flag_short c desc f0) = []
         \<and> long_name (Flag_short_arg c desc f1) = []
         \<and> parse_loop flags argv i (tr, w) =
             (if expects_value (flags ! k) then
                if v = [] then
                  Exit 1 (tr, w\<lparr>cerr := cerr w @ argv ! 0 @ '': option '--'' @ [CHR 0x27]
                                        @ '' requires an argument'' @ [newline]\<rparr>)
                else and_then (invoke flags k v (tr, w))
                       (\<lambda>_ s'. parse_loop flags argv (i + 1) s')
              else and_then (invoke flags k [] (tr, w))
                     (\<lambda>_ s'. parse_loop flags argv (i + 1) s'))"
proof -
  have k: "find_if (\<lambda>f. long_name f = []) flags = Some k"
    using assms(3,4,5) by (intro find_if_first) simp_all
  have tok: "3 \<le> length (argv ! i)" "starts_with (argv ! i) ''--''"
    using assms(2) by simp_all
  note step = parse_loop_long [OF assms(1) tok, of flags "(tr, w)"]
  have run: "parse_loop flags argv i (tr, w) =
             (if expects_value (flags ! k) then
                if v = [] then
                  Exit 1 (tr, w\<lparr>cerr := cerr w @ argv ! 0 @ '': option '--'' @ [CHR 0x27]
                                        @ '' requires an argument'' @ [newline]\<rparr>)
                else and_then (invoke flags k v (tr, w))
                       (\<lambda>_ s'. parse_loop flags argv (i + 1) s')
              else and_then (invoke flags k [] (tr, w))
                     (\<lambda>_ s'. parse_loop flags argv (i + 1) s'))"
  proof (cases "expects_value (flags ! k)")
    case False
    have "long_ident (argv ! i) = []"
      using assms(2) long_ident_attached [of "[]" v] by simp
    with k have "find_if (\<lambda>f. long_name f = long_ident (argv ! i)) flags = Some k" by simp
    from long_option_novalue [OF tok(2) this False] False show ?thesis
      unfolding step by (simp add: and_then_assoc)
  next
    case True
    note ev = this
    show ?thesis
    proof (cases "v = []")
      case True
      with assms(2) have "argv ! i = ''--'' @ [] @ ''=''" by simp
      from long_option_attached_empty [OF this _ k ev, of tr w] True ev show ?thesis
        unfolding step by simp
    next
      case False
      from assms(2) have "argv ! i = ''--'' @ [] @ CHR ''='' # v" by simp
      from long_option_attached [OF this _ k ev False, of "(tr, w)"] False ev show ?thesis
        unfolding step by (simp add: and_then_assoc)
    qed
  qed
  show ?thesis
    using run by (simp add: flag_ctor_defs)
qed

theorem empty_long_identifier_dispatch_witness:
  "1 < length [''example'', ''--=hello'']
   \<and> [''example'', ''--=hello''] ! 1 = ''--='' @ ''hello''
   \<and> 2 < length example_flags
   \<and> long_name (example_flags ! 2) = []
   \<and> list_all (\<lambda>j. long_name (example_flags ! j) \<noteq> []) [0, 1]
   \<and> example_flags ! 2 = Flag_short_arg CHR ''p'' ''Print something''
         (Fn1 (\<lambda>optarg w. Return () (w\<lparr>cout := cout w @ optarg @ [newline]\<rparr>)))
   \<and> parse example_flags [''example'', ''--=hello''] main_start =
       Return () ([(2, ''hello'')], main_start\<lparr>cout := ''hello'' @ [newline]\<rparr>)"
  using empty_long_identifier_dispatch
          [of 1 "[''example'', ''--=hello'']" "''hello''" 2 example_flags _ _ _ _ "[]" main_start]
  by (simp add: parse_def example_flags_list flag_ctor_defs main_start_def parse_loop_end
        less_Suc_eq numeral_2_eq_2)

theorem empty_long_identifier_counterexample:
  "find_if (\<lambda>f. long_name f = []) example_flags = Some 2
   \<and> expects_value (example_flags ! 2)
   \<and> parse example_flags [''example'', ''--=''] main_start =
       Exit 1 ([], main_start\<lparr>cerr := ''example: option '--'' @ [CHR 0x27]
                                         @ '' requires an argument'' @ [newline]\<rparr>)"
  by (simp add: run_simps)

text \<open>C10: the token \<^verbatim>\<open>--\<close> fails the long-option test (its length is 2), passes the
  short-option test, and its single candidate character is \<^verbatim>\<open>-\<close>; when no flag has
  that short name the run prints \<^verbatim>\<open><prog>: unknown option: '--'\<close> and exits with
  status 1, whatever tokens follow.\<close>

theorem double_dash_unknown_option:
  assumes "i < length argv" and "argv ! i = ''--''"
    and "\<forall>f\<in>set flags. short_name f \<noteq> CHR ''-''"
  shows "\<not> (3 \<le> length (argv ! i) \<and> starts_with (argv ! i) ''--'')
         \<and> (2 \<le> length (argv ! i) \<and> starts_with (argv ! i) ''-'')
         \<and> substr (argv ! i) 1 None = ''-''
         \<and> parse_loop flags argv i (tr, w) =
             Exit 1 (tr, w\<lparr>cerr := cerr w @ argv ! 0 @ '': unknown option: '--''
                                   @ [CHR 0x27, newline]\<rparr>)"
proof -
  have nl: "\<not> (3 \<le> length (argv ! i) \<and> starts_with (argv ! i) ''--'')"
    using assms(2) by simp
  have none: "find_if (\<lambda>f. short_name f = ''-'' ! 0) flags = None"
    using assms(3) by (simp add: find_if_None)
  have "parse_loop flags argv i (tr, w) =
          and_then (short_loop flags argv ''-'' i 0 (tr, w))
            (\<lambda>i' s'. parse_loop flags argv (i' + 1) s')"
    using assms(1,2) nl by (intro parse_loop_short_token) simp_all
  also have "short_loop flags argv ''-'' i 0 (tr, w) =
               Exit 1 (tr, w\<lparr>cerr := cerr w @ argv ! 0 @ '': unknown option: '-'' @ [''-'' ! 0]
                                     @ [CHR 0x27, newline]\<rparr>)"
    using none by (intro short_loop_unknown) simp_all
  finally show ?thesis using assms(2) by (simp add: starts_with_def substr_def)
qed

theorem double_dash_unknown_option_witness:
  "1 < length [''example'', ''--'', ''-f'']
   \<and> [''example'', ''--'', ''-f''] ! 1 = ''--''
   \<and> list_all (\<lambda>f. short_name f \<noteq> CHR ''-'') example_flags
   \<and> parse example_flags [''example'', ''--'', ''-f''] main_start =
       Exit 1 ([], main_start\<lparr>cerr := ''example: unknown option: '--'' @ [CHR 0x27, newline]\<rparr>)"
  using double_dash_unknown_option [of 1 "[''example'', ''--'', ''-f'']" example_flags "[]" main_start]
  by (simp add: parse_def example_flags_list flag_ctor_defs main_start_def)

section \<open>Further properties\<close>

text \<open>X1: the first-registered flag wins. When several flags share a short name, a
  token \<^verbatim>\<open>-c\<close> calls the callback of the first of them in registration order,
  whatever the later ones are.\<close>

theorem first_registered_short_flag_wins:
  assumes "i < length argv" and "argv ! i = [CHR ''-'', c]"
    and "k < length flags" and "short_name (flags ! k) = c"
    and "\<forall>j<k. short_name (flags ! j) \<noteq> c"
    and "\<not> expects_value (flags ! k)"
  shows "parse_loop (flags @ later) argv i s =
           and_then (invoke (flags @ later) k [] s)
             (\<lambda>_ s'. parse_loop (flags @ later) argv (i + 1) s')"
proof -
  have k: "find_if (\<lambda>f. short_name f = c) (flags @ later) = Some k"
    using assms(3,4,5) by (intro find_if_first) (simp_all add: nth_append)
  have nv: "\<not> expects_value ((flags @ later) ! k)"
    using assms(3,6) by (simp add: nth_append)
  have pre: "\<forall>x\<in>set [c]. novalue_short (flags @ later) x"
    using k nv by (simp add: novalue_short_def)
  have idx: "short_index (flags @ later) c = k"
    using k by (simp add: short_index_def)
  have nl: "\<not> (3 \<le> length (argv ! i) \<and> starts_with (argv ! i) ''--'')"
    using assms(2) by simp
  have "parse_loop (flags @ later) argv i s =
          and_then (fire_each (flags @ later) [c] s)
            (\<lambda>_ s1. and_then (short_loop (flags @ later) argv ([c] @ []) i (length [c]) s1)
              (\<lambda>i' s'. parse_loop (flags @ later) argv (i' + 1) s'))"
    using assms(1,2) nl pre by (intro parse_loop_short_run) simp_all
  then show ?thesis
    by (cases "invoke (flags @ later) k [] s") (simp_all add: idx short_loop_done)
qed

theorem first_registered_short_flag_wins_witness:
  "1 < length [''example'', ''-f'']
   \<and> 0 < length example_flags
   \<and> short_name (example_flags ! 0) = CHR ''f''
   \<and> \<not> expects_value (example_flags ! 0)
   \<and> parse (example_flags
             @ [Flag_short CHR ''f'' ''Shadowed''
                  (Fn0 (\<lambda>w. Return () (w\<lparr>cout := cout w @ ''shadowed''\<rparr>)))])
         [''example'', ''-f''] main_start =
       Return () ([(0, [])], main_start\<lparr>user := \<lparr>main_flag = True, main_filename = []\<rparr>\<rparr>)"
  using first_registered_short_flag_wins
          [of 1 "[''example'', ''-f'']" "CHR ''f''" 0 example_flags
              "[Flag_short CHR ''f'' ''Shadowed''
                  (Fn0 (\<lambda>w. Return () (w\<lparr>cout := cout w @ ''shadowed''\<rparr>)))]"
              "([], main_start)"]
  by (simp add: parse_def example_flags_list flag_ctor_defs main_start_def parse_loop_end)

text \<open>X2: the flag that \<^verbatim>\<open>add_help\<close> registers. When no earlier flag has the long
  name \<^verbatim>\<open>help\<close>, the token \<^verbatim>\<open>--help\<close> calls it: the help page of the whole
  registry, the help flag's own line included, is written to the standard output and
  the process exits with status 1.\<close>

theorem help_flag_prints_page_and_exits:
  assumes "i < length argv" and "argv ! i = ''--help''"
    and "\<forall>f\<in>set flags. long_name f \<noteq> ''help''"
  shows "parse_loop (add_help flags usage) argv i (tr, w) =
           Exit 1 (tr @ [(length flags, [])],
                   print_help_page (add_help flags usage) usage w)"
proof -
  let ?fl = "add_help flags usage"
  have tok: "3 \<le> length (argv ! i)" "starts_with (argv ! i) ''--''"
    using assms(2) by simp_all
  have id: "long_ident (argv ! i) = ''help''"
    using assms(2) long_ident_plain [of "''help''"] by simp
  have "find_if (\<lambda>f. long_name f = ''help'') flags = None"
    using assms(3) by (simp add: find_if_None)
  then have k: "find_if (\<lambda>f. long_name f = long_ident (argv ! i)) ?fl = Some (length flags)"
    unfolding id by (simp add: add_help_def add_def find_if_append flag_ctor_defs)
  have nv: "\<not> expects_value (?fl ! length flags)"
    by (simp add: add_help_def add_def flag_ctor_defs)
  have act: "action (?fl ! length flags) = Discard (HelpFn usage)"
    by (simp add: add_help_def add_def flag_ctor_defs)
  show ?thesis
    unfolding parse_loop_long [OF assms(1) tok] long_option_novalue [OF tok(2) k nv]
    by (simp add: act)
qed

theorem help_flag_prints_page_and_exits_witness:
  "list_all (\<lambda>f. long_name f \<noteq> ''help'')
     [Flag_short CHR ''v'' ''Verbose'' (Fn0 (\<lambda>w. Return () (w :: unit world)))]
   \<and> parse (add_help
              [Flag_short CHR ''v'' ''Verbose'' (Fn0 (\<lambda>w. Return () (w :: unit world)))]
              ''tool [-v]'')
         [''tool'', ''--help'', ''-v''] \<lparr>cout = [], cerr = [], user = ()\<rparr> =
       Exit 1 ([(1, [])],
         \<lparr>cout = ''Usage: tool [-v]'' @ [newline]
                 @ ''  -v                             Verbose'' @ [newline]
                 @ ''  -h, --help                     Print help'' @ [newline],
          cerr = [], user = ()\<rparr>)"
  using help_flag_prints_page_and_exits
          [of 1 "[''tool'', ''--help'', ''-v'']"
              "[Flag_short CHR ''v'' ''Verbose'' (Fn0 (\<lambda>w. Return () (w :: unit world)))]"
              "''tool [-v]''" "[]" "\<lparr>cout = [], cerr = [], user = ()\<rparr>"]
  by (simp add: parse_def print_help_page_def help_entry_def help_lhs_def lhs_max_def
        add_help_def add_def flag_ctor_defs Let_def numeral_eq_Suc)

text \<open>X3: the help page of the usage example in the header of \<^verbatim>\<open>jargs.hpp\<close>, with
  the left-hand columns padded to width 32.\<close>

theorem example_help_page:
  "cout (print_help_page example_flags ''example [args]'' main_start) =
     ''Usage: example [args]'' @ [newline]
     @ ''  -f, --flag                     Set flag'' @ [newline]
     @ ''  --filename ARG                 Specify filename'' @ [newline]
     @ ''  -p ARG                         Print something'' @ [newline]
     @ ''  -h, --help                     Print help'' @ [newline]"
  by (simp add: print_help_page_def help_entry_def help_lhs_def lhs_max_def
        example_flags_list flag_ctor_defs main_start_def Let_def numeral_eq_Suc)

text \<open>X4: the first run of the usage example in the header of \<^verbatim>\<open>jargs.hpp\<close>:
  \<^verbatim>\<open>example -f --filename=a.out\<close> sets the flag and the file name and prints
  nothing.\<close>

theorem example_run_flag_and_filename:
  "parse example_flags [''example'', ''-f'', ''--filename=a.out''] main_start =
     Return () ([(0, []), (1, ''a.out'')],
       \<lparr>cout = [], cerr = [],
        user = \<lparr>main_flag = True, main_filename = ''a.out''\<rparr>\<rparr>)"
  by (simp add: run_simps)

end
